theory Spec2Isabelle
  imports Complex_Main
begin

section \<open>JavaScript values\<close>

text \<open>
  The frontend is JavaScript (Vue 3, Pinia).  The values that flow through the store, the
  event payloads and the component refs are primitives; a field that is absent from an
  object reads as \<open>undefined\<close>.  A finite number is a \<open>real\<close> (every finite double is
  one, and comparing with the constants 1 and 100 is exact); \<open>NaN\<close> is a value of its own.
\<close>

datatype js = JUndefined | JNull | JBool bool | JNum real | JNaN | JStr string

text \<open>ToBoolean: what \<open>if (v)\<close>, \<open>!v\<close> and \<open>v || w\<close> test.\<close>

fun truthy :: "js \<Rightarrow> bool" where
  "truthy JUndefined = False"
| "truthy JNull = False"
| "truthy (JBool b) = b"
| "truthy (JNum r) = (r \<noteq> 0)"
| "truthy JNaN = False"
| "truthy (JStr s) = (s \<noteq> [])"

text \<open>\<open>a || b\<close>: the left operand when it is truthy, the right one otherwise.\<close>

definition js_or :: "js \<Rightarrow> js \<Rightarrow> js" where
  "js_or a b = (if truthy a then a else b)"

text \<open>
  ToNumber, with \<open>None\<close> for \<open>NaN\<close>.  The conversion of a string (StringToNumber of
  ECMAScript) is a parameter \<open>sn\<close>: no claim depends on it.
\<close>

fun to_number :: "(string \<Rightarrow> real option) \<Rightarrow> js \<Rightarrow> real option" where
  "to_number sn JUndefined = None"
| "to_number sn JNull = Some 0"
| "to_number sn (JBool b) = Some (if b then 1 else 0)"
| "to_number sn (JNum r) = Some r"
| "to_number sn JNaN = None"
| "to_number sn (JStr s) = sn s"

text \<open>
  \<open>v < n\<close> and \<open>v > n\<close> against a number literal \<open>n\<close>: the left operand is converted
  with ToNumber, and a comparison with \<open>NaN\<close> is false.
\<close>

definition js_lt_num :: "(string \<Rightarrow> real option) \<Rightarrow> js \<Rightarrow> real \<Rightarrow> bool" where
  "js_lt_num sn v n = (case to_number sn v of None \<Rightarrow> False | Some r \<Rightarrow> r < n)"

definition js_gt_num :: "(string \<Rightarrow> real option) \<Rightarrow> js \<Rightarrow> real \<Rightarrow> bool" where
  "js_gt_num sn v n = (case to_number sn v of None \<Rightarrow> False | Some r \<Rightarrow> r > n)"

text \<open>
  What reading a property of a plain object (\<open>{}\<close>) can give.  Besides the primitives
  stored in it, the object inherits from \<open>Object.prototype\<close>: the key \<open>__proto__\<close> reads
  as \<open>Object.prototype\<close> itself, and the names of its methods read as functions.
\<close>

datatype property_value = Primitive js | Object_prototype | Builtin_function string

definition object_prototype_methods :: "string list" where
  "object_prototype_methods =
     [''constructor'', ''hasOwnProperty'', ''isPrototypeOf'', ''propertyIsEnumerable'',
      ''toLocaleString'', ''toString'', ''valueOf'', ''__defineGetter__'', ''__defineSetter__'',
      ''__lookupGetter__'', ''__lookupSetter__'']"

text \<open>
  A plain object that holds primitives: its own properties, and whether it still has its
  prototype.  \<open>obj[k]\<close> reads the own property, or else what the prototype has under
  \<open>k\<close>, or else \<open>undefined\<close>.
\<close>

record js_object =
  own :: "string \<Rightarrow> js option"
  has_prototype :: bool

definition empty_object :: js_object where
  "empty_object = \<lparr>own = (\<lambda>k. None), has_prototype = True\<rparr>"

definition get_property :: "js_object \<Rightarrow> string \<Rightarrow> property_value" where
  "get_property obj k =
     (case own obj k of
        Some v \<Rightarrow> Primitive v
      | None \<Rightarrow>
          if \<not> has_prototype obj then Primitive JUndefined
          else if k = ''__proto__'' then Object_prototype
          else if k \<in> set object_prototype_methods then Builtin_function k
          else Primitive JUndefined)"

text \<open>
  \<open>obj[k] = v\<close> for a primitive \<open>v\<close>.  An assignment to \<open>__proto__\<close> that finds no own
  property of that name runs the setter of \<open>Object.prototype\<close>: it takes the prototype
  away when \<open>v\<close> is \<open>null\<close> and does nothing for any other primitive.  Every other
  assignment stores an own property (the inherited methods are writable data properties,
  so assigning to their names does too).
\<close>

definition set_property :: "string \<Rightarrow> js \<Rightarrow> js_object \<Rightarrow> js_object" where
  "set_property k v obj =
     (if own obj k = None \<and> has_prototype obj \<and> k = ''__proto__''
      then (if v = JNull then obj\<lparr>has_prototype := False\<rparr> else obj)
      else obj\<lparr>own := (own obj)(k \<mapsto> v)\<rparr>)"

section \<open>Timers\<close>

text \<open>
  \<open>setTimeout\<close> and \<open>clearTimeout\<close>: a table of pending callbacks, each with its handle
  and the time (in ms) at which it is due.  Handles are positive, so a stored handle is
  truthy in \<open>if (timer)\<close>; clearing a handle that is no longer pending does nothing.
\<close>

record 'cb timer_table =
  next_handle :: nat
  pending :: "(nat \<times> nat \<times> 'cb) list"

definition no_timers :: "'cb timer_table" where
  "no_timers = \<lparr>next_handle = 1, pending = []\<rparr>"

definition setTimeout :: "'cb \<Rightarrow> nat \<Rightarrow> nat \<Rightarrow> 'cb timer_table \<Rightarrow> nat \<times> 'cb timer_table" where
  "setTimeout cb delay now tt =
     (next_handle tt,
      tt\<lparr>next_handle := Suc (next_handle tt),
         pending := pending tt @ [(next_handle tt, now + delay, cb)]\<rparr>)"

definition clearTimeout :: "nat \<Rightarrow> 'cb timer_table \<Rightarrow> 'cb timer_table" where
  "clearTimeout h tt = tt\<lparr>pending := filter (\<lambda>e. fst e \<noteq> h) (pending tt)\<rparr>"

text \<open>The callbacks that are due at time \<open>now\<close>, in the order they were set, and the rest.\<close>

definition due_callbacks :: "nat \<Rightarrow> 'cb timer_table \<Rightarrow> 'cb list" where
  "due_callbacks now tt = map (\<lambda>e. snd (snd e)) (filter (\<lambda>e. fst (snd e) \<le> now) (pending tt))"

definition drop_due :: "nat \<Rightarrow> 'cb timer_table \<Rightarrow> 'cb timer_table" where
  "drop_due now tt = tt\<lparr>pending := filter (\<lambda>e. \<not> fst (snd e) \<le> now) (pending tt)\<rparr>"

section \<open>The store (stores/mainStore.js)\<close>

record settings =
  repo_save_path :: js
  theme :: js
  max_generations :: js

record backup_item =
  timestamp :: string
  is_auto :: js

record folder_state =
  name :: string
  memo :: js
  backups :: "backup_item list"
  source_exists :: js

record main_store =
  settings :: settings
  items :: "folder_state list"
  isConnected :: bool

text \<open>The state function of \<open>defineStore('main', ...)\<close>.\<close>

definition initial_store :: main_store where
  "initial_store =
     \<lparr>settings = \<lparr>repo_save_path = JStr [], theme = JStr ''system'', max_generations = JNum 10\<rparr>,
      items = [],
      isConnected = False\<rparr>"

text \<open>The events the store listens to in \<open>init\<close>, with their payloads.\<close>

datatype event =
    Settings_state settings
  | Backups_state "folder_state list"
  | Navigate_settings

fun on_event :: "event \<Rightarrow> main_store \<Rightarrow> main_store" where
  "on_event (Settings_state payload) st = st\<lparr>settings := payload\<rparr>"
| "on_event (Backups_state payload) st = st\<lparr>items := payload\<rparr>"
| "on_event Navigate_settings st = st"

text \<open>The commands the store sends to the backend with \<open>invoke\<close>, with their arguments.\<close>

datatype command =
    Initialize_app
  | Save_settings js js js
  | Manual_backup string
  | Restore_backup string string
  | Delete_backup string string
  | Delete_subfolder string
  | Save_memo string property_value

definition saveSettings :: "main_store \<Rightarrow> js \<Rightarrow> js \<Rightarrow> js \<Rightarrow> command" where
  "saveSettings st newPath maxGenerations theme' =
     Save_settings newPath
       (js_or (js_or maxGenerations (max_generations (settings st))) (JNum 10))
       (js_or (js_or theme' (theme (settings st))) (JStr ''system''))"

definition triggerBackup :: "string \<Rightarrow> command" where
  "triggerBackup subfolderName = Manual_backup subfolderName"

definition saveMemo :: "string \<Rightarrow> property_value \<Rightarrow> command" where
  "saveMemo subfolderName content = Save_memo subfolderName content"

section \<open>The settings view (components/Settings.vue)\<close>

datatype settings_callback = Save_from_path | Save_from_generations

record settings_view =
  localPath :: js
  maxGenerations :: js
  theme_ref :: js
  pathTimer :: "nat option"
  generationsTimer :: "nat option"
  view_timers :: "settings_callback timer_table"

text \<open>The refs as they are declared, before the watchers run.\<close>

definition declared_view :: settings_view where
  "declared_view =
     \<lparr>localPath = JStr [], maxGenerations = JNum 10, theme_ref = JStr ''system'',
      pathTimer = None, generationsTimer = None, view_timers = no_timers\<rparr>"

text \<open>The three watchers on the store's settings; each takes the new value of its source.\<close>

definition watch_repo_save_path :: "js \<Rightarrow> settings_view \<Rightarrow> settings_view" where
  "watch_repo_save_path newVal v = v\<lparr>localPath := newVal\<rparr>"

definition watch_max_generations :: "js \<Rightarrow> settings_view \<Rightarrow> settings_view" where
  "watch_max_generations newVal v = v\<lparr>maxGenerations := js_or newVal (JNum 10)\<rparr>"

definition watch_theme :: "js \<Rightarrow> settings_view \<Rightarrow> settings_view" where
  "watch_theme newVal v = v\<lparr>theme_ref := js_or newVal (JStr ''system'')\<rparr>"

text \<open>The watchers are \<open>immediate\<close>: setting the component up runs each of them once.\<close>

definition setup_view :: "main_store \<Rightarrow> settings_view" where
  "setup_view st =
     watch_theme (theme (settings st))
       (watch_max_generations (max_generations (settings st))
         (watch_repo_save_path (repo_save_path (settings st)) declared_view))"

text \<open>\<open>if (timer) clearTimeout(timer)\<close>.\<close>

definition clear_if_set :: "nat option \<Rightarrow> 'cb timer_table \<Rightarrow> 'cb timer_table" where
  "clear_if_set t tt = (case t of None \<Rightarrow> tt | Some h \<Rightarrow> clearTimeout h tt)"

definition onPathInput :: "nat \<Rightarrow> settings_view \<Rightarrow> settings_view" where
  "onPathInput now v =
     (let (h, tt) = setTimeout Save_from_path 500 now (clear_if_set (pathTimer v) (view_timers v))
      in v\<lparr>pathTimer := Some h, view_timers := tt\<rparr>)"

text \<open>
  The field of the retention limit has \<open>v-model.number="maxGenerations"\<close> and
  \<open>@input="onMaxGenerationsInput"\<close>: when the handler runs, \<open>maxGenerations\<close> holds what
  was typed, as a number when it parses as one.
\<close>

definition onMaxGenerationsInput ::
  "(string \<Rightarrow> real option) \<Rightarrow> nat \<Rightarrow> settings_view \<Rightarrow> settings_view" where
  "onMaxGenerationsInput sn now v =
     (let v1 = (if js_lt_num sn (maxGenerations v) 1 then v\<lparr>maxGenerations := JNum 1\<rparr> else v);
          v2 = (if js_gt_num sn (maxGenerations v1) 100 then v1\<lparr>maxGenerations := JNum 100\<rparr> else v1);
          (h, tt) = setTimeout Save_from_generations 500 now
                      (clear_if_set (generationsTimer v2) (view_timers v2))
      in v2\<lparr>generationsTimer := Some h, view_timers := tt\<rparr>)"

text \<open>Both timer callbacks, and \<open>onThemeChange\<close>, call the store's \<open>saveSettings\<close>.\<close>

definition run_settings_callback :: "main_store \<Rightarrow> settings_view \<Rightarrow> settings_callback \<Rightarrow> command" where
  "run_settings_callback st v cb = saveSettings st (localPath v) (maxGenerations v) (theme_ref v)"

definition onThemeChange :: "main_store \<Rightarrow> settings_view \<Rightarrow> js \<Rightarrow> command" where
  "onThemeChange st v newTheme = saveSettings st (localPath v) (maxGenerations v) newTheme"

text \<open>
  Time passes to \<open>now\<close> with no further input: the callbacks that are due run, each sending
  its command.
\<close>

definition settings_view_idle :: "main_store \<Rightarrow> nat \<Rightarrow> settings_view \<Rightarrow> command list \<times> settings_view" where
  "settings_view_idle st now v =
     (map (run_settings_callback st v) (due_callbacks now (view_timers v)),
      v\<lparr>view_timers := drop_due now (view_timers v)\<rparr>)"

section \<open>The list view (components/SaveList.vue)\<close>

text \<open>\<open>a !== b\<close> on primitives: \<open>NaN\<close> differs from everything, itself included.\<close>

definition js_strict_neq :: "js \<Rightarrow> js \<Rightarrow> bool" where
  "js_strict_neq a b = (a \<noteq> b \<or> a = JNaN)"

text \<open>\<open>p !== b\<close> when \<open>p\<close> was read from an object and \<open>b\<close> is a primitive.\<close>

definition property_strict_neq :: "property_value \<Rightarrow> js \<Rightarrow> bool" where
  "property_strict_neq p b = (case p of Primitive a \<Rightarrow> js_strict_neq a b | _ \<Rightarrow> True)"

text \<open>
  The view's own state: the memo texts being edited (\<open>ref({})\<close>: a plain object keyed by
  folder name), the one \<open>memoTimer\<close> of the component, the timers it has set (each
  callback is the folder name it closed over), the time, and the commands sent to the
  backend so far.
\<close>

record save_list =
  memos :: js_object
  memoTimer :: "nat option"
  list_timers :: "string timer_table"
  clock :: nat
  sent :: "command list"

definition initial_list :: save_list where
  "initial_list =
     \<lparr>memos = empty_object, memoTimer = None, list_timers = no_timers, clock = 0, sent = []\<rparr>"

text \<open>
  The watcher on \<open>items\<close>.  Whether the focused element is a memo input
  (\<open>document.activeElement?.className?.includes('memo-input')\<close>) is the parameter
  \<open>memo_focused\<close>.
\<close>

definition watch_item :: "bool \<Rightarrow> folder_state \<Rightarrow> save_list \<Rightarrow> save_list" where
  "watch_item memo_focused item sl =
     (if get_property (memos sl) (name item) = Primitive JUndefined
         \<or> (property_strict_neq (get_property (memos sl) (name item)) (memo item)
              \<and> \<not> memo_focused)
      then sl\<lparr>memos := set_property (name item) (memo item) (memos sl)\<rparr>
      else sl)"

definition watch_items :: "bool \<Rightarrow> folder_state list \<Rightarrow> save_list \<Rightarrow> save_list" where
  "watch_items memo_focused newItems sl = fold (watch_item memo_focused) newItems sl"

definition onMemoInput :: "string \<Rightarrow> save_list \<Rightarrow> save_list" where
  "onMemoInput folderName sl =
     (let (h, tt) = setTimeout folderName 1000 (clock sl)
                      (clear_if_set (memoTimer sl) (list_timers sl))
      in sl\<lparr>memoTimer := Some h, list_timers := tt\<rparr>)"

text \<open>The timer's callback: \<open>store.saveMemo(folderName, memos.value[folderName])\<close>.\<close>

definition memo_callback :: "string \<Rightarrow> save_list \<Rightarrow> save_list" where
  "memo_callback folderName sl =
     sl\<lparr>sent := sent sl @ [saveMemo folderName (get_property (memos sl) folderName)]\<rparr>"

text \<open>
  What happens to the view: the user types in the memo field of a folder (\<open>v-model\<close>
  assigns the text to \<open>memos[item.name]\<close>, then \<open>@input\<close> calls \<open>onMemoInput\<close>), the
  store's items change, or time passes and the callbacks that have become due run.
\<close>

datatype list_event =
    Memo_typed string js
  | Items_changed bool "folder_state list"
  | Time_passes nat

fun list_step :: "list_event \<Rightarrow> save_list \<Rightarrow> save_list" where
  "list_step (Memo_typed folderName text') sl =
     onMemoInput folderName (sl\<lparr>memos := set_property folderName text' (memos sl)\<rparr>)"
| "list_step (Items_changed memo_focused newItems) sl = watch_items memo_focused newItems sl"
| "list_step (Time_passes d) sl =
     (let now = clock sl + d
      in fold memo_callback (due_callbacks now (list_timers sl))
           (sl\<lparr>clock := now, list_timers := drop_due now (list_timers sl)\<rparr>))"

definition list_run :: "list_event list \<Rightarrow> save_list \<Rightarrow> save_list" where
  "list_run es sl = fold list_step es sl"

text \<open>
  The component's timers are only ever the one \<open>memoTimer\<close> holds: every pending timer has
  that handle.
\<close>

definition one_memo_timer :: "save_list \<Rightarrow> bool" where
  "one_memo_timer sl =
     list_all (\<lambda>e. memoTimer sl = Some (fst e)) (pending (list_timers sl))"

text \<open>A burst of edits: each is typed, then less than a second passes.\<close>

fun burst :: "(string \<times> js \<times> nat) list \<Rightarrow> list_event list" where
  "burst [] = []"
| "burst ((folderName, text', gap) # es) = Memo_typed folderName text' # Time_passes gap # burst es"

definition short_gaps :: "(string \<times> js \<times> nat) list \<Rightarrow> bool" where
  "short_gaps es = list_all (\<lambda>e. snd (snd e) < 1000) es"

text \<open>
  The manual-backup button of an item: \<open>:disabled="!item.source_exists"\<close> and
  \<open>@click="manualBackup(item.name)"\<close>.  A disabled button does not deliver its click.
\<close>

definition manual_backup_disabled :: "folder_state \<Rightarrow> bool" where
  "manual_backup_disabled item = (\<not> truthy (source_exists item))"

definition manualBackup :: "string \<Rightarrow> command list" where
  "manualBackup folderName = [triggerBackup folderName]"

definition click_manual_backup :: "folder_state \<Rightarrow> command list" where
  "click_manual_backup item =
     (if manual_backup_disabled item then [] else manualBackup (name item))"

section \<open>Dates: the ECMAScript Date object\<close>

text \<open>
  \<open>formatDate\<close> of the list view goes through dayjs, which builds a JavaScript \<open>Date\<close>
  from year, month, day, hours, minutes and seconds and reads them back.  The functions
  below are those of ECMA-262 (Date objects, "Overview of Date Objects and Definitions of
  Abstract Operations"), on integers: a time value is a number of milliseconds, a day
  number is \<open>Day(t)\<close>.  Division is the floor division of the standard.
\<close>

definition msPerDay :: int where "msPerDay = 86400000"
definition msPerHour :: int where "msPerHour = 3600000"
definition msPerMinute :: int where "msPerMinute = 60000"
definition msPerSecond :: int where "msPerSecond = 1000"

definition Day :: "int \<Rightarrow> int" where
  "Day t = t div msPerDay"

definition DaysInYear :: "int \<Rightarrow> int" where
  "DaysInYear y =
     (if y mod 4 \<noteq> 0 then 365 else if y mod 100 \<noteq> 0 then 366
      else if y mod 400 \<noteq> 0 then 365 else 366)"

definition DayFromYear :: "int \<Rightarrow> int" where
  "DayFromYear y =
     365 * (y - 1970) + (y - 1969) div 4 - (y - 1901) div 100 + (y - 1601) div 400"

text \<open>
  \<open>YearFromTime(t)\<close> is the largest \<open>y\<close> with \<open>TimeFromYear(y) \<le> t\<close>.  It is found by
  walking up from a year that is not too late (\<open>year_floor\<close>: a year has at most 366 days,
  and at least 365).
\<close>

function year_up :: "int \<Rightarrow> int \<Rightarrow> int" where
  "year_up y d = (if DayFromYear (y + 1) \<le> d then year_up (y + 1) d else y)"
  by pat_completeness auto
termination
proof (relation "measure (\<lambda>(y, d). nat (d + 1 - DayFromYear (y + 1)))")
  show "wf (measure (\<lambda>(y, d). nat (d + 1 - DayFromYear (y + 1))))"
    by simp
next
  fix y d :: int
  assume le: "DayFromYear (y + 1) \<le> d"
  have a: "(y + 1 - 1969) div 4 \<le> (y + 1 + 1 - 1969) div 4"
    by (rule zdiv_mono1) simp_all
  have b: "(y + 1 + 1 - 1901) div 100 \<le> (y + 1 - 1901) div 100 + 1"
    by arith
  have c: "(y + 1 - 1601) div 400 \<le> (y + 1 + 1 - 1601) div 400"
    by (rule zdiv_mono1) simp_all
  have "365 * (y + 1 - 1970) + p - q + r < 365 * (y + 1 + 1 - 1970) + p' - q' + r'"
    if "p \<le> p'" "q' \<le> q + 1" "r \<le> r'" for p q r p' q' r' :: int
    using that by (simp add: algebra_simps)
  from this [OF a b c] have "DayFromYear (y + 1) < DayFromYear (y + 1 + 1)"
    unfolding DayFromYear_def .
  with le show "((y + 1, d), (y, d)) \<in> measure (\<lambda>(y, d). nat (d + 1 - DayFromYear (y + 1)))"
    by simp
qed

definition year_floor :: "int \<Rightarrow> int" where
  "year_floor d = 1970 + (if 0 \<le> d then d div 366 else d div 365)"

definition YearFromTime :: "int \<Rightarrow> int" where
  "YearFromTime t = year_up (year_floor (Day t)) (Day t)"

definition InLeapYear :: "int \<Rightarrow> bool" where
  "InLeapYear t = (DaysInYear (YearFromTime t) = 366)"

definition DayWithinYear :: "int \<Rightarrow> int" where
  "DayWithinYear t = Day t - DayFromYear (YearFromTime t)"

text \<open>The day within the year on which month \<open>mn\<close> (0 to 11) starts.\<close>

definition month_start :: "int \<Rightarrow> bool \<Rightarrow> int" where
  "month_start mn leap =
     (let l = (if leap then 1 else 0)
      in if mn = 0 then 0 else if mn = 1 then 31 else if mn = 2 then 59 + l
         else if mn = 3 then 90 + l else if mn = 4 then 120 + l else if mn = 5 then 151 + l
         else if mn = 6 then 181 + l else if mn = 7 then 212 + l else if mn = 8 then 243 + l
         else if mn = 9 then 273 + l else if mn = 10 then 304 + l else 334 + l)"

definition MonthFromTime :: "int \<Rightarrow> int" where
  "MonthFromTime t =
     (let d = DayWithinYear t; l = (if InLeapYear t then 1 else 0)
      in if d < 31 then 0 else if d < 59 + l then 1 else if d < 90 + l then 2
         else if d < 120 + l then 3 else if d < 151 + l then 4 else if d < 181 + l then 5
         else if d < 212 + l then 6 else if d < 243 + l then 7 else if d < 273 + l then 8
         else if d < 304 + l then 9 else if d < 334 + l then 10 else 11)"

definition DateFromTime :: "int \<Rightarrow> int" where
  "DateFromTime t = DayWithinYear t - month_start (MonthFromTime t) (InLeapYear t) + 1"

definition HourFromTime :: "int \<Rightarrow> int" where
  "HourFromTime t = (t div msPerHour) mod 24"

definition MinFromTime :: "int \<Rightarrow> int" where
  "MinFromTime t = (t div msPerMinute) mod 60"

definition SecFromTime :: "int \<Rightarrow> int" where
  "SecFromTime t = (t div msPerSecond) mod 60"

definition MakeTime :: "int \<Rightarrow> int \<Rightarrow> int \<Rightarrow> int \<Rightarrow> int" where
  "MakeTime h m s ms = h * msPerHour + m * msPerMinute + s * msPerSecond + ms"

definition MakeDay :: "int \<Rightarrow> int \<Rightarrow> int \<Rightarrow> int" where
  "MakeDay yr m dt =
     (let ym = yr + m div 12; mn = m mod 12
      in DayFromYear ym + month_start mn (DaysInYear ym = 366) + dt - 1)"

definition MakeDate :: "int \<Rightarrow> int \<Rightarrow> int" where
  "MakeDate dy tm = dy * msPerDay + tm"

text \<open>The length of month \<open>m\<close> (1 to 12) of year \<open>y\<close>, for stating which dates exist.\<close>

definition days_in_month :: "int \<Rightarrow> int \<Rightarrow> int" where
  "days_in_month y m =
     (if m = 2 then (if DaysInYear y = 366 then 29 else 28)
      else if m = 4 \<or> m = 6 \<or> m = 9 \<or> m = 11 then 30 else 31)"

section \<open>Timestamps: dayjs with customParseFormat\<close>

text \<open>
  \<open>main.js\<close> extends dayjs with the \<open>customParseFormat\<close> plugin, so
  \<open>dayjs(tsStr, "YYYYMMDD_HHmmss")\<close> parses with the plugin's \<open>parseFormattedInput\<close>
  (dayjs 1.11, not strict).  Decimal digits and numbers first.
\<close>

definition is_digit :: "char \<Rightarrow> bool" where
  "is_digit c = (c \<in> set ''0123456789'')"

definition digit_val :: "char \<Rightarrow> nat" where
  "digit_val c = of_char c - 48"

definition digit_char :: "nat \<Rightarrow> char" where
  "digit_char n = ''0123456789'' ! (n mod 10)"

text \<open>\<open>+input\<close> on a string of digits, and \<open>String(n)\<close> on an integer.\<close>

definition to_nat_digits :: "string \<Rightarrow> nat" where
  "to_nat_digits s = foldl (\<lambda>n c. 10 * n + digit_val c) 0 s"

fun show_nat :: "nat \<Rightarrow> string" where
  "show_nat n = (if n < 10 then [digit_char n] else show_nat (n div 10) @ [digit_char n])"

definition show_int :: "int \<Rightarrow> string" where
  "show_int i = (if i < 0 then CHR ''-'' # show_nat (nat (- i)) else show_nat (nat i))"

text \<open>
  dayjs's \<open>padStart(string, length, pad)\<close>: nothing is added to an empty string or to one
  that is long enough.
\<close>

definition padStart :: "string \<Rightarrow> nat \<Rightarrow> char \<Rightarrow> string" where
  "padStart s len pad =
     (if s = [] \<or> len \<le> length s then s else replicate (len - length s) pad @ s)"

text \<open>
  The plugin's regular expressions, as \<open>regex.exec(part)\<close> finds them: \<open>/\d{n}/\<close>
  (\<open>match4\<close>, \<open>match2\<close>) and \<open>/\d\d?/\<close> (\<open>match1to2\<close>) match at the leftmost place
  they can, anywhere in the string; \<open>None\<close> is \<open>null\<close>.
\<close>

fun match_digits :: "nat \<Rightarrow> string \<Rightarrow> string option" where
  "match_digits n [] = (if n = 0 then Some [] else None)"
| "match_digits n (c # cs) =
     (if n \<le> length (c # cs) \<and> list_all is_digit (take n (c # cs))
      then Some (take n (c # cs)) else match_digits n cs)"

fun match1to2 :: "string \<Rightarrow> string option" where
  "match1to2 [] = None"
| "match1to2 (c # cs) =
     (if is_digit c
      then Some (c # (case cs of [] \<Rightarrow> [] | d # ds \<Rightarrow> if is_digit d then [d] else []))
      else match1to2 cs)"

text \<open>\<open>input.replace(value, '')\<close>: the first occurrence of \<open>value\<close> is taken out.\<close>

fun replace_first :: "string \<Rightarrow> string \<Rightarrow> string" where
  "replace_first v [] = []"
| "replace_first v (c # cs) =
     (if take (length v) (c # cs) = v then drop (length v) (c # cs) else c # replace_first v cs)"

text \<open>
  The tokens \<open>makeParser\<close> cuts the format \<open>YYYYMMDD_HHmmss\<close> into, with the expression
  of each: \<open>YYYY\<close> is \<open>match4\<close>, \<open>MM\<close> and \<open>DD\<close> are \<open>match2\<close>, \<open>HH\<close>, \<open>mm\<close> and
  \<open>ss\<close> are \<open>match1to2\<close>; each stores the number it read in its field of the time
  object.  The underscore is a separator.
\<close>

datatype token = Tok_YYYY | Tok_MM | Tok_DD | Tok_HH | Tok_mm | Tok_ss | Separator string

definition timestamp_tokens :: "token list" where
  "timestamp_tokens = [Tok_YYYY, Tok_MM, Tok_DD, Separator ''_'', Tok_HH, Tok_mm, Tok_ss]"

record parsed_time =
  year :: "nat option"
  month :: "nat option"
  day :: "nat option"
  hours :: "nat option"
  minutes :: "nat option"
  seconds :: "nat option"

definition no_time :: parsed_time where
  "no_time = \<lparr>year = None, month = None, day = None, hours = None, minutes = None, seconds = None\<rparr>"

fun token_regex :: "token \<Rightarrow> string \<Rightarrow> string option" where
  "token_regex Tok_YYYY = match_digits 4"
| "token_regex Tok_MM = match_digits 2"
| "token_regex Tok_DD = match_digits 2"
| "token_regex Tok_HH = match1to2"
| "token_regex Tok_mm = match1to2"
| "token_regex Tok_ss = match1to2"
| "token_regex (Separator l) = (\<lambda>s. None)"

fun addInput :: "token \<Rightarrow> nat \<Rightarrow> parsed_time \<Rightarrow> parsed_time" where
  "addInput Tok_YYYY n time = time\<lparr>year := Some n\<rparr>"
| "addInput Tok_MM n time = time\<lparr>month := Some n\<rparr>"
| "addInput Tok_DD n time = time\<lparr>day := Some n\<rparr>"
| "addInput Tok_HH n time = time\<lparr>hours := Some n\<rparr>"
| "addInput Tok_mm n time = time\<lparr>minutes := Some n\<rparr>"
| "addInput Tok_ss n time = time\<lparr>seconds := Some n\<rparr>"
| "addInput (Separator l) n time = time"

text \<open>
  The parser's loop: a separator moves \<open>start\<close>; a token matches its expression against
  \<open>input.slice(start)\<close>, stores the value and removes it from \<open>input\<close>.  When an
  expression does not match, \<open>match[0]\<close> throws, and the result is \<open>None\<close>.
\<close>

fun run_parser :: "token list \<Rightarrow> nat \<Rightarrow> string \<Rightarrow> parsed_time \<Rightarrow> parsed_time option" where
  "run_parser [] start input time = Some time"
| "run_parser (Separator l # ts) start input time = run_parser ts (start + length l) input time"
| "run_parser (tok # ts) start input time =
     (case token_regex tok (drop start input) of
        None \<Rightarrow> None
      | Some v \<Rightarrow> run_parser ts start (replace_first v input) (addInput tok (to_nat_digits v) time))"

text \<open>
  \<open>parseFormattedInput\<close>: what was not read, or was read as 0, is taken from the current
  date (\<open>new Date()\<close>: the parameter \<open>now\<close>) or is 0, as the plugin's \<open>||\<close> and \<open>?:\<close>
  say; the month counts from 0.
\<close>

record today =
  now_year :: int
  now_month :: int
  now_date :: int

definition is_set :: "nat option \<Rightarrow> bool" where
  "is_set x = (case x of None \<Rightarrow> False | Some n \<Rightarrow> n \<noteq> 0)"

definition or_else :: "nat option \<Rightarrow> int \<Rightarrow> int" where
  "or_else x d = (case x of None \<Rightarrow> d | Some n \<Rightarrow> if n \<noteq> 0 then int n else d)"

definition date_arguments :: "today \<Rightarrow> parsed_time \<Rightarrow> int \<times> int \<times> int \<times> int \<times> int \<times> int" where
  "date_arguments now time =
     (let d = or_else (day time)
                (if \<not> is_set (year time) \<and> \<not> is_set (month time) then now_date now else 1);
          y = or_else (year time) (now_year now);
          M = (if \<not> (is_set (year time) \<and> \<not> is_set (month time))
               then (case month time of
                       Some n \<Rightarrow> if 0 < n then int n - 1 else now_month now
                     | None \<Rightarrow> now_month now)
               else 0);
          h = or_else (hours time) 0;
          m = or_else (minutes time) 0;
          s = or_else (seconds time) 0
      in (y, M, d, h, m, s))"

text \<open>
  \<open>new Date(y, M, d, h, m, s, ms)\<close>: a year from 0 to 99 means 1900 + year; the fields are
  taken as local time.  The time zone is not in the code: \<open>zone\<close> takes the local time
  value the fields denote to the local time value the Date then reports, which is the same
  value unless that local time does not exist (it was skipped by a change of the clock) or
  is out of range (\<open>None\<close>: an invalid Date).  An exception in the parser is caught and
  gives an invalid Date too.
\<close>

fun new_Date :: "(int \<Rightarrow> int option) \<Rightarrow> int \<times> int \<times> int \<times> int \<times> int \<times> int \<Rightarrow> int option" where
  "new_Date zone (y, M, d, h, m, s) =
     zone (MakeDate (MakeDay (if 0 \<le> y \<and> y \<le> 99 then 1900 + y else y) M d) (MakeTime h m s 0))"

definition parseFormattedInput :: "today \<Rightarrow> (int \<Rightarrow> int option) \<Rightarrow> string \<Rightarrow> int option" where
  "parseFormattedInput now zone input =
     (case run_parser timestamp_tokens 0 input no_time of
        None \<Rightarrow> None
      | Some time \<Rightarrow> new_Date zone (date_arguments now time))"

text \<open>
  \<open>format("YYYY-MM-DD HH:mm:ss")\<close>: an invalid Date prints as \<open>Invalid Date\<close>; otherwise
  \<open>YYYY\<close> is the year padded to 4, and \<open>MM\<close>, \<open>DD\<close>, \<open>HH\<close>, \<open>mm\<close>, \<open>ss\<close> are padded
  to 2, the month counted from 1.
\<close>

definition pad2 :: "int \<Rightarrow> string" where
  "pad2 n = padStart (show_int n) 2 (CHR ''0'')"

definition dayjs_format :: "int option \<Rightarrow> string" where
  "dayjs_format d =
     (case d of
        None \<Rightarrow> ''Invalid Date''
      | Some t \<Rightarrow>
          padStart (show_int (YearFromTime t)) 4 (CHR ''0'') @ ''-'' @ pad2 (MonthFromTime t + 1)
          @ ''-'' @ pad2 (DateFromTime t) @ '' '' @ pad2 (HourFromTime t) @ '':''
          @ pad2 (MinFromTime t) @ '':'' @ pad2 (SecFromTime t))"

text \<open>\<open>formatDate\<close> of SaveList.vue.\<close>

definition formatDate :: "today \<Rightarrow> (int \<Rightarrow> int option) \<Rightarrow> string \<Rightarrow> string" where
  "formatDate now zone tsStr = dayjs_format (parseFormattedInput now zone tsStr)"

text \<open>
  A time zone whose clock is put forward by an hour at the local time \<open>start\<close>.  A local
  time of the skipped hour does not exist; ECMA-262 reads it with the offset from before
  the change, so the Date reports it an hour later.
\<close>

definition skipped_hour :: "int \<Rightarrow> int \<Rightarrow> int option" where
  "skipped_hour start t = Some (if start \<le> t \<and> t < start + msPerHour then t + msPerHour else t)"

section \<open>The notification overlay (components/NotificationOverlay.vue)\<close>


datatype overlay_callback = Hide_card | Hide_window

record overlay =
  message_ref :: js
  title_ref :: js
  type_ref :: js
  visible :: bool
  timer :: "nat option"
  window_shown :: bool
  overlay_timers :: "overlay_callback timer_table"



text \<open>
  The two timer callbacks: after 3 s the card is hidden and a second timer is set, which
  hides the window 300 ms later.
\<close>

fun run_overlay_callback :: "nat \<Rightarrow> overlay_callback \<Rightarrow> overlay \<Rightarrow> overlay" where
  "run_overlay_callback now Hide_card ov =
     (let (h, tt) = setTimeout Hide_window 300 now (overlay_timers ov)
      in ov\<lparr>visible := False, overlay_timers := tt\<rparr>)"
| "run_overlay_callback now Hide_window ov = ov\<lparr>window_shown := False\<rparr>"










section \<open>The backup engine\<close>

text \<open>
  The engine is the Rust backend, which is not among the sources at hand: only its
  commands and events are.  Its data and operations are modelled from the specification.
\<close>

text \<open>
  Modelled from the spec: the error kinds and the Snapshot of the engine's data model
  (backend, not among the sources): a snapshot has "a timestamp identifier, an is_auto
  flag, and the on-disk path of the copied directory tree", here the tree itself (paths
  and contents).
\<close>

type_synonym tree = "(string \<times> string) list"

datatype engine_error = SourceMissing | NotFound | SourceLocked | PartialFailure | IOError

record snapshot =
  snapshot_timestamp :: string
  snapshot_is_auto :: bool
  snapshot_tree :: tree

text \<open>
  Modelled from the spec: the Category of the engine's data model (backend, not among the
  sources): its name, the live subfolder (\<open>None\<close> when it is absent, which is
  \<open>source_exists = false\<close>), its snapshots newest first, its memo, the staging location
  beside the live folder, and whether it was reported as degraded.
\<close>

record category =
  category_name :: string
  live :: "tree option"
  snapshots :: "snapshot list"
  category_memo :: "string option"
  staging :: "tree option"
  degraded :: bool

text \<open>
  Modelled from the spec: the failures of the file system that the engine's operations
  meet (backend, not among the sources).  What the disk does when asked is not the
  engine's choice, so each operation is given it: a copy of a live folder that breaks off,
  the snapshot directories (by timestamp) that cannot be removed, a staged copy that
  fails, a live folder that cannot be replaced ("files in use"), and a swap that stops
  partway, leaving mixed content.
\<close>

record disk =
  copy_fails :: bool
  undeletable :: "string list"
  stage_fails :: bool
  live_locked :: bool
  swap_breaks :: "tree option"

text \<open>
  Modelled from the spec: the removal of snapshot directories by the Generation Store
  (backend, not among the sources).  The directories are tried in the order given; one
  whose timestamp is in \<open>undeletable\<close> cannot be removed, and the failure is logged.  The
  result is the directories removed and the failures, each in the order of the attempts.
\<close>

fun remove_dirs :: "disk \<Rightarrow> snapshot list \<Rightarrow> snapshot list \<times> snapshot list" where
  "remove_dirs dk [] = ([], [])"
| "remove_dirs dk (s # ss) =
     (let (removed, logged) = remove_dirs dk ss
      in if snapshot_timestamp s \<in> set (undeletable dk)
         then (removed, s # logged) else (s # removed, logged))"

text \<open>
  Modelled from the spec: \<open>prune(category, limit)\<close> of the Generation Store (backend, not
  among the sources): "re-applies retention to an existing list; deletes oldest-first
  down to the new limit".  The category's list is cut to its newest \<open>limit\<close> snapshots
  ("\<open>len(snapshots) <= max_generations\<close>", which the spec states without exception), and
  the directories of the others are removed from the oldest on; "pruning failures are
  logged".  The result is the category, the directories removed and the failures logged.
\<close>

definition prune :: "disk \<Rightarrow> nat \<Rightarrow> category \<Rightarrow> category \<times> snapshot list \<times> snapshot list" where
  "prune dk limit c =
     (let (removed, logged) = remove_dirs dk (rev (drop limit (snapshots c)))
      in (c\<lparr>snapshots := take limit (snapshots c)\<rparr>, removed, logged))"

text \<open>
  Modelled from the spec: \<open>create(category, is_auto)\<close> of the Generation Store (backend,
  not among the sources): "fails with SourceMissing if the live subfolder does not exist;
  otherwise copies the entire subfolder tree into a new snapshot directory named by the
  current timestamp identifier"; a copy that breaks off leaves no snapshot; "after a
  successful create, prunes oldest snapshots beyond max_generations; pruning failures are
  logged but do not undo the just-created snapshot".  The timestamp identifier comes from
  the clock and is an argument.
\<close>

definition create ::
  "disk \<Rightarrow> nat \<Rightarrow> string \<Rightarrow> bool \<Rightarrow> category \<Rightarrow> engine_error + (snapshot \<times> category \<times> snapshot list)" where
  "create dk max_gen stamp auto c =
     (case live c of
        None \<Rightarrow> Inl SourceMissing
      | Some t \<Rightarrow>
          if copy_fails dk then Inl IOError
          else let s = \<lparr>snapshot_timestamp = stamp, snapshot_is_auto = auto, snapshot_tree = t\<rparr>;
                   (c', removed, logged) = prune dk max_gen (c\<lparr>snapshots := s # snapshots c\<rparr>)
               in Inr (s, c', logged))"

text \<open>
  Modelled from the spec: the Settings the Settings Coordinator owns and the categories
  of the watched root (backend, not among the sources).
\<close>

record engine =
  engine_path :: string
  engine_max_generations :: nat
  engine_theme :: string
  categories :: "category list"

text \<open>
  Modelled from the spec: the validation of the Settings Coordinator (backend, not among
  the sources): "validates maxGenerations to [1,100], clamping out-of-range input rather
  than failing".
\<close>

definition clamp_generations :: "int \<Rightarrow> nat" where
  "clamp_generations n = nat (max 1 (min 100 n))"

text \<open>
  Modelled from the spec: \<open>applySettings(path, maxGenerations, theme)\<close> of the Settings
  Coordinator (backend, not among the sources): "if path changed, triggers a full rescan
  of categories; if maxGenerations decreased, invokes prune on every existing Category".
  What a rescan of a root finds is the parameter \<open>scan\<close>.
\<close>

definition applySettings ::
  "disk \<Rightarrow> (string \<Rightarrow> category list) \<Rightarrow> string \<Rightarrow> int \<Rightarrow> string \<Rightarrow> engine \<Rightarrow> engine" where
  "applySettings dk scan path maxGenerations' theme' eng =
     (let limit = clamp_generations maxGenerations';
          found = (if path \<noteq> engine_path eng then scan path else categories eng);
          kept = (if limit < engine_max_generations eng
                  then map (\<lambda>c. fst (prune dk limit c)) found else found)
      in eng\<lparr>engine_path := path, engine_max_generations := limit, engine_theme := theme',
             categories := kept\<rparr>)"

text \<open>
  Modelled from the spec: the first step of \<open>restore\<close> in the Restore Coordinator
  (backend, not among the sources): "copy the target snapshot's tree into a temporary
  staging location beside the live folder".  A copy that fails leaves nothing staged.
\<close>

definition stage_copy :: "disk \<Rightarrow> snapshot \<Rightarrow> category \<Rightarrow> engine_error + category" where
  "stage_copy dk s c =
     (if stage_fails dk then Inl IOError else Inr (c\<lparr>staging := Some (snapshot_tree s)\<rparr>))"

text \<open>
  Modelled from the spec: the second step of \<open>restore\<close> in the Restore Coordinator
  (backend, not among the sources): "then perform the destructive swap: delete the
  current live subfolder contents and move the staged copy into place"; SourceLocked
  "if the live subfolder cannot be fully replaced", with the live data unchanged; and
  "if the deletion-and-move step fails partway, the engine reports the category as being
  in a degraded state".  The result is the outcome and the category as it then is.
\<close>

definition swap_in :: "disk \<Rightarrow> category \<Rightarrow> (engine_error + unit) \<times> category" where
  "swap_in dk c =
     (if live_locked dk then (Inl SourceLocked, c\<lparr>staging := None\<rparr>)
      else case swap_breaks dk of
             Some mixed \<Rightarrow> (Inl PartialFailure, c\<lparr>live := Some mixed, staging := None, degraded := True\<rparr>)
           | None \<Rightarrow> (Inr (), c\<lparr>live := staging c, staging := None\<rparr>))"

text \<open>
  Modelled from the spec: \<open>restore(category, timestamp)\<close> of the Restore Coordinator
  (backend, not among the sources): "fails with NotFound if the snapshot does not exist";
  then the staged copy, then the swap.
\<close>

definition restore :: "disk \<Rightarrow> string \<Rightarrow> category \<Rightarrow> (engine_error + unit) \<times> category" where
  "restore dk stamp c =
     (case find (\<lambda>s. snapshot_timestamp s = stamp) (snapshots c) of
        None \<Rightarrow> (Inl NotFound, c)
      | Some s \<Rightarrow>
          (case stage_copy dk s c of
             Inl e \<Rightarrow> (Inl e, c)
           | Inr c1 \<Rightarrow> swap_in dk c1))"

section \<open>Properties\<close>

subsection \<open>Retention after create and after a decrease of the limit\<close>

lemma remove_dirs_filter:
  "remove_dirs dk ss =
     (filter (\<lambda>s. snapshot_timestamp s \<notin> set (undeletable dk)) ss,
      filter (\<lambda>s. snapshot_timestamp s \<in> set (undeletable dk)) ss)"
  by (induction ss) simp_all

lemma prune_takes:
  "prune dk limit c =
     (c\<lparr>snapshots := take limit (snapshots c)\<rparr>,
      filter (\<lambda>s. snapshot_timestamp s \<notin> set (undeletable dk)) (rev (drop limit (snapshots c))),
      filter (\<lambda>s. snapshot_timestamp s \<in> set (undeletable dk)) (rev (drop limit (snapshots c))))"
  by (simp add: prune_def remove_dirs_filter)

text \<open>
  C1: a successful create leaves at most \<open>max_generations\<close> snapshots in the category,
  namely the newest ones with the new snapshot first, pruned within the create itself;
  \<open>prune\<close> leaves the newest \<open>limit\<close> snapshots and removes the directories of the
  others from the oldest on; and when \<open>applySettings\<close> has decreased the limit, every
  category holds at most the new limit, the newest snapshots of each.
\<close>

theorem retention_after_create_and_decrease:
  "let eng' = applySettings dk scan path n th eng
   in (create dk max_gen stamp auto c = Inr (s, c', logged) \<longrightarrow>
         length (snapshots c') \<le> max_gen \<and> snapshots c' = take max_gen (s # snapshots c))
      \<and> length (snapshots (fst (prune dk limit c))) \<le> limit
      \<and> snapshots (fst (prune dk limit c)) = take limit (snapshots c)
      \<and> fst (snd (prune dk limit c))
          = filter (\<lambda>s. snapshot_timestamp s \<notin> set (undeletable dk))
              (rev (drop limit (snapshots c)))
      \<and> (engine_max_generations eng' < engine_max_generations eng \<longrightarrow>
            (\<forall>k \<in> set (categories eng').
               length (snapshots k) \<le> engine_max_generations eng'))
      \<and> (engine_max_generations eng' < engine_max_generations eng \<and> path = engine_path eng \<longrightarrow>
            map snapshots (categories eng')
              = map (\<lambda>k. take (engine_max_generations eng') (snapshots k)) (categories eng))"
proof -
  have created: "length (snapshots c') \<le> max_gen \<and> snapshots c' = take max_gen (s # snapshots c)"
    if "create dk max_gen stamp auto c = Inr (s, c', logged)"
    using that
    by (auto simp: create_def Let_def prune_takes split: option.splits if_splits)
  have pruned: "length (snapshots (fst (prune dk limit c))) \<le> limit"
    "snapshots (fst (prune dk limit c)) = take limit (snapshots c)"
    "fst (snd (prune dk limit c))
       = filter (\<lambda>s. snapshot_timestamp s \<notin> set (undeletable dk)) (rev (drop limit (snapshots c)))"
    by (simp_all add: prune_takes)
  define eng' where "eng' = applySettings dk scan path n th eng"
  have decreased: "\<forall>k \<in> set (categories eng'). length (snapshots k) \<le> engine_max_generations eng'"
    if "engine_max_generations eng' < engine_max_generations eng"
    using that unfolding eng'_def
    by (auto simp: applySettings_def Let_def prune_takes)
  have newest: "map snapshots (categories eng')
      = map (\<lambda>k. take (engine_max_generations eng') (snapshots k)) (categories eng)"
    if "engine_max_generations eng' < engine_max_generations eng" "path = engine_path eng"
    using that unfolding eng'_def
    by (simp add: applySettings_def Let_def prune_takes comp_def)
  show ?thesis
    using created pruned decreased newest
    by (simp add: Let_def eng'_def [symmetric])
qed

theorem retention_after_create_and_decrease_witness:
  "create \<lparr>copy_fails = False, undeletable = [], stage_fails = False, live_locked = False,
           swap_breaks = None\<rparr> 3 ''20240101_000004'' False
     \<lparr>category_name = ''SaveA'', live = Some [(''slot1'', ''d'')],
      snapshots = map (\<lambda>t. \<lparr>snapshot_timestamp = t, snapshot_is_auto = True, snapshot_tree = []\<rparr>)
                    [''20240101_000003'', ''20240101_000002'', ''20240101_000001''],
      category_memo = None, staging = None, degraded = False\<rparr>
   = Inr (\<lparr>snapshot_timestamp = ''20240101_000004'', snapshot_is_auto = False,
            snapshot_tree = [(''slot1'', ''d'')]\<rparr>,
          \<lparr>category_name = ''SaveA'', live = Some [(''slot1'', ''d'')],
           snapshots =
             [\<lparr>snapshot_timestamp = ''20240101_000004'', snapshot_is_auto = False,
               snapshot_tree = [(''slot1'', ''d'')]\<rparr>,
              \<lparr>snapshot_timestamp = ''20240101_000003'', snapshot_is_auto = True, snapshot_tree = []\<rparr>,
              \<lparr>snapshot_timestamp = ''20240101_000002'', snapshot_is_auto = True, snapshot_tree = []\<rparr>],
           category_memo = None, staging = None, degraded = False\<rparr>,
          [])
   \<and> engine_max_generations
        (applySettings \<lparr>copy_fails = False, undeletable = [], stage_fails = False,
                        live_locked = False, swap_breaks = None\<rparr> (\<lambda>p. []) ''C:/saves'' 2 ''dark''
           \<lparr>engine_path = ''C:/saves'', engine_max_generations = 10, engine_theme = ''dark'',
            categories =
              [\<lparr>category_name = ''SaveB'', live = None,
                snapshots = map (\<lambda>t. \<lparr>snapshot_timestamp = t, snapshot_is_auto = True, snapshot_tree = []\<rparr>)
                    [''20240101_000005'', ''20240101_000004'', ''20240101_000003'',
                     ''20240101_000002'', ''20240101_000001''],
                category_memo = None, staging = None, degraded = False\<rparr>]\<rparr>) = 2
   \<and> (2::nat) < 10
   \<and> map (\<lambda>k. map snapshot_timestamp (snapshots k))
        (categories
          (applySettings \<lparr>copy_fails = False, undeletable = [], stage_fails = False,
                          live_locked = False, swap_breaks = None\<rparr> (\<lambda>p. []) ''C:/saves'' 2 ''dark''
             \<lparr>engine_path = ''C:/saves'', engine_max_generations = 10, engine_theme = ''dark'',
              categories =
                [\<lparr>category_name = ''SaveB'', live = None,
                  snapshots = map (\<lambda>t. \<lparr>snapshot_timestamp = t, snapshot_is_auto = True, snapshot_tree = []\<rparr>)
                      [''20240101_000005'', ''20240101_000004'', ''20240101_000003'',
                       ''20240101_000002'', ''20240101_000001''],
                  category_memo = None, staging = None, degraded = False\<rparr>]\<rparr>))
      = [[''20240101_000005'', ''20240101_000004'']]"
  using retention_after_create_and_decrease
    [where dk = "\<lparr>copy_fails = False, undeletable = [], stage_fails = False, live_locked = False,
                   swap_breaks = None\<rparr>"
       and scan = "\<lambda>p. []" and path = "''C:/saves''" and n = 2 and th = "''dark''"
       and eng = "\<lparr>engine_path = ''C:/saves'', engine_max_generations = 10, engine_theme = ''dark'',
              categories =
                [\<lparr>category_name = ''SaveB'', live = None,
                  snapshots = map (\<lambda>t. \<lparr>snapshot_timestamp = t, snapshot_is_auto = True, snapshot_tree = []\<rparr>)
                      [''20240101_000005'', ''20240101_000004'', ''20240101_000003'',
                       ''20240101_000002'', ''20240101_000001''],
                  category_memo = None, staging = None, degraded = False\<rparr>]\<rparr>"
       and max_gen = 3 and stamp = "''20240101_000004''" and auto = False and limit = 3
       and c = "\<lparr>category_name = ''SaveA'', live = Some [(''slot1'', ''d'')],
            snapshots = map (\<lambda>t. \<lparr>snapshot_timestamp = t, snapshot_is_auto = True, snapshot_tree = []\<rparr>)
                    [''20240101_000003'', ''20240101_000002'', ''20240101_000001''],
            category_memo = None, staging = None, degraded = False\<rparr>"
       and s = "\<lparr>snapshot_timestamp = ''20240101_000004'', snapshot_is_auto = False,
            snapshot_tree = [(''slot1'', ''d'')]\<rparr>"
       and c' = "\<lparr>category_name = ''SaveA'', live = Some [(''slot1'', ''d'')],
           snapshots =
             [\<lparr>snapshot_timestamp = ''20240101_000004'', snapshot_is_auto = False,
               snapshot_tree = [(''slot1'', ''d'')]\<rparr>,
              \<lparr>snapshot_timestamp = ''20240101_000003'', snapshot_is_auto = True, snapshot_tree = []\<rparr>,
              \<lparr>snapshot_timestamp = ''20240101_000002'', snapshot_is_auto = True, snapshot_tree = []\<rparr>],
           category_memo = None, staging = None, degraded = False\<rparr>"
       and logged = "[]"]
  by (simp add: Let_def create_def prune_def applySettings_def clamp_generations_def)

subsection \<open>The settings view clamps the retention limit\<close>

lemma onMax_value:
  "maxGenerations (onMaxGenerationsInput sn now (v\<lparr>maxGenerations := JNum x\<rparr>)) =
     JNum (if x < 1 then 1 else if 100 < x then 100 else x)"
  by (simp add: onMaxGenerationsInput_def js_lt_num_def js_gt_num_def Let_def split: prod.splits)

lemma onMax_other:
  "localPath (onMaxGenerationsInput sn now v) = localPath v"
  "theme_ref (onMaxGenerationsInput sn now v) = theme_ref v"
  by (simp_all add: onMaxGenerationsInput_def Let_def split: prod.splits)

lemma onMax_pending:
  "\<exists>h. (h, now + 500, Save_from_generations) \<in> set (pending (view_timers (onMaxGenerationsInput sn now v)))"
  by (auto simp add: onMaxGenerationsInput_def Let_def setTimeout_def split: prod.splits)

text \<open>
  C2: whatever number \<open>x\<close> the field holds when \<open>onMaxGenerationsInput\<close> runs, the handler
  leaves a number between 1 and 100 in it: 1 when \<open>x < 1\<close>, 100 when \<open>x > 100\<close>, \<open>x\<close>
  itself otherwise.  It returns normally (it has no error result), and every save it leads
  to, 500 ms later, sends that corrected number.
\<close>

theorem onMaxGenerationsInput_clamps:
  "let v' = onMaxGenerationsInput sn now (v\<lparr>maxGenerations := JNum x\<rparr>);
       c = (if x < 1 then 1 else if 100 < x then 100 else x);
       sent = fst (settings_view_idle st (now + 500) v')
   in maxGenerations v' = JNum c \<and> 1 \<le> c \<and> c \<le> 100
      \<and> sent \<noteq> []
      \<and> (\<forall>cmd \<in> set sent.
            cmd = Save_settings (localPath v) (JNum c)
                    (js_or (js_or (theme_ref v) (theme (settings st))) (JStr ''system'')))"
proof -
  define v' where "v' = onMaxGenerationsInput sn now (v\<lparr>maxGenerations := JNum x\<rparr>)"
  define c where "c = (if x < 1 then 1 else if 100 < x then 100 else x)"
  have mg: "maxGenerations v' = JNum c"
    unfolding v'_def c_def by (rule onMax_value)
  have rng: "1 \<le> c \<and> c \<le> 100"
    by (simp add: c_def)
  have lp: "localPath v' = localPath v" and th: "theme_ref v' = theme_ref v"
    by (simp_all add: v'_def onMax_other)
  have cb: "run_settings_callback st v' k =
      Save_settings (localPath v) (JNum c)
        (js_or (js_or (theme_ref v) (theme (settings st))) (JStr ''system''))" for k
    using rng by (simp add: run_settings_callback_def saveSettings_def mg lp th js_or_def)
  obtain h where "(h, now + 500, Save_from_generations) \<in> set (pending (view_timers v'))"
    unfolding v'_def using onMax_pending by blast
  then have ne: "due_callbacks (now + 500) (view_timers v') \<noteq> []"
    by (force simp: due_callbacks_def filter_empty_conv)
  show ?thesis
    using mg rng ne cb
    by (simp add: Let_def settings_view_idle_def v'_def [symmetric] c_def [symmetric])
qed

theorem onMaxGenerationsInput_clamps_witness:
  "maxGenerations (onMaxGenerationsInput (\<lambda>s. None) 0 (declared_view\<lparr>maxGenerations := JNum 250\<rparr>)) = JNum 100
   \<and> fst (settings_view_idle initial_store 500
            (onMaxGenerationsInput (\<lambda>s. None) 0 (declared_view\<lparr>maxGenerations := JNum 250\<rparr>)))
       = [Save_settings (JStr []) (JNum 100) (JStr ''system'')]
   \<and> maxGenerations (onMaxGenerationsInput (\<lambda>s. None) 0 (declared_view\<lparr>maxGenerations := JNum (-3)\<rparr>)) = JNum 1"
  using onMaxGenerationsInput_clamps [where sn = "\<lambda>s. None" and now = 0 and v = declared_view and x = 250 and st = initial_store]
        onMaxGenerationsInput_clamps [where sn = "\<lambda>s. None" and now = 0 and v = declared_view and x = "-3" and st = initial_store]
  by (simp add: Let_def onMaxGenerationsInput_def declared_view_def js_lt_num_def js_gt_num_def
        setTimeout_def clear_if_set_def no_timers_def settings_view_idle_def due_callbacks_def
        run_settings_callback_def saveSettings_def js_or_def initial_store_def)

subsection \<open>A failed staged copy leaves the live folder alone\<close>

text \<open>
  C3: when the staged copy fails, \<open>restore\<close> fails (with IOError when the snapshot
  exists), and the category, its live folder included, is exactly as it was.
\<close>

theorem restore_stage_failure_leaves_live:
  "stage_fails dk \<longrightarrow>
     (\<exists>e. fst (restore dk stamp c) = Inl e)
     \<and> snd (restore dk stamp c) = c
     \<and> live (snd (restore dk stamp c)) = live c
     \<and> (find (\<lambda>s. snapshot_timestamp s = stamp) (snapshots c) \<noteq> None \<longrightarrow>
          fst (restore dk stamp c) = Inl IOError)"
  by (auto simp: restore_def stage_copy_def split: option.splits)

theorem restore_stage_failure_witness:
  "stage_fails \<lparr>copy_fails = False, undeletable = [], stage_fails = True, live_locked = False,
                swap_breaks = None\<rparr>
   \<and> restore \<lparr>copy_fails = False, undeletable = [], stage_fails = True, live_locked = False,
               swap_breaks = None\<rparr> ''20240101_000000''
        \<lparr>category_name = ''SaveC'', live = Some [(''slot1'', ''b'')],
         snapshots = [\<lparr>snapshot_timestamp = ''20240101_000000'', snapshot_is_auto = True,
                       snapshot_tree = [(''slot1'', ''a'')]\<rparr>],
         category_memo = None, staging = None, degraded = False\<rparr>
      = (Inl IOError,
         \<lparr>category_name = ''SaveC'', live = Some [(''slot1'', ''b'')],
          snapshots = [\<lparr>snapshot_timestamp = ''20240101_000000'', snapshot_is_auto = True,
                        snapshot_tree = [(''slot1'', ''a'')]\<rparr>],
          category_memo = None, staging = None, degraded = False\<rparr>)"
  using restore_stage_failure_leaves_live
    [where dk = "\<lparr>copy_fails = False, undeletable = [], stage_fails = True, live_locked = False,
                   swap_breaks = None\<rparr>"
       and stamp = "''20240101_000000''"
       and c = "\<lparr>category_name = ''SaveC'', live = Some [(''slot1'', ''b'')],
         snapshots = [\<lparr>snapshot_timestamp = ''20240101_000000'', snapshot_is_auto = True,
                       snapshot_tree = [(''slot1'', ''a'')]\<rparr>],
         category_memo = None, staging = None, degraded = False\<rparr>"]
  by (simp add: restore_def stage_copy_def)

subsection \<open>State events replace the whole document\<close>

text \<open>
  C4: after a \<open>settings-state\<close> event the store's settings are the payload, and after a
  \<open>backups-state\<close> event its items are the payload, whatever the store held before and
  whatever events came earlier; an event of one kind leaves the other document alone.
\<close>

theorem store_event_replaces_document:
  "settings (on_event (Settings_state p) st) = p
   \<and> items (on_event (Backups_state q) st) = q
   \<and> settings (on_event (Settings_state p) st) = settings (on_event (Settings_state p) st')
   \<and> items (on_event (Backups_state q) st) = items (on_event (Backups_state q) st')
   \<and> settings (fold on_event (es @ [Settings_state p]) st) = p
   \<and> items (fold on_event (es @ [Backups_state q]) st) = q
   \<and> items (on_event (Settings_state p) st) = items st
   \<and> settings (on_event (Backups_state q) st) = settings st"
  by simp

subsection \<open>No manual backup without a source folder\<close>

text \<open>
  C5: for an item whose \<open>source_exists\<close> is \<open>false\<close> the manual-backup button is disabled,
  and clicking it sends no command.
\<close>

theorem manual_backup_disabled_when_source_missing:
  "source_exists item = JBool False \<longrightarrow>
     manual_backup_disabled item \<and> click_manual_backup item = []"
  by (simp add: manual_backup_disabled_def click_manual_backup_def)

theorem manual_backup_disabled_witness:
  "source_exists \<lparr>name = ''SaveD'', memo = JStr [], backups = [], source_exists = JBool False\<rparr> = JBool False
   \<and> manual_backup_disabled \<lparr>name = ''SaveD'', memo = JStr [], backups = [], source_exists = JBool False\<rparr>
   \<and> click_manual_backup \<lparr>name = ''SaveD'', memo = JStr [], backups = [], source_exists = JBool False\<rparr> = []"
  using manual_backup_disabled_when_source_missing
    [of "\<lparr>name = ''SaveD'', memo = JStr [], backups = [], source_exists = JBool False\<rparr>"]
  by simp

subsection \<open>The overlay shows the notification it is sent\<close>





subsection \<open>formatDate keeps the fields of a timestamp\<close>

lemma div_succ:
  fixes a n :: int
  assumes "1 < n"
  shows "(a + 1) div n = a div n + (if (a + 1) mod n = 0 then 1 else 0)"
proof -
  have r: "0 \<le> a mod n" "a mod n < n"
    using assms by simp_all
  have d: "(a + 1) div n = a div n + (a mod n + 1) div n"
    using assms by (simp add: div_add1_eq [of a 1 n])
  have m: "(a + 1) mod n = (a mod n + 1) mod n"
    by (simp add: mod_add_left_eq)
  show ?thesis
  proof (cases "a mod n + 1 = n")
    case True
    then show ?thesis using d m assms by simp
  next
    case False
    then have lt: "a mod n + 1 < n" using r by simp
    then have "(a mod n + 1) div n = 0" "(a mod n + 1) mod n = a mod n + 1"
      using r by simp_all
    then show ?thesis using d m r by simp
  qed
qed

lemma step4: "((y::int) + 1 - 1969) div 4 = (y - 1969) div 4 + (if y mod 4 = 0 then 1 else 0)"
proof -
  have "(y - 1969 + 1) mod 4 = y mod 4"
    by (simp add: mod_diff_right_eq [of y 1968 4, symmetric])
  then show ?thesis
    using div_succ [of 4 "y - 1969"] by (simp add: algebra_simps)
qed

lemma step100: "((y::int) + 1 - 1901) div 100 = (y - 1901) div 100 + (if y mod 100 = 0 then 1 else 0)"
proof -
  have "(y - 1901 + 1) mod 100 = y mod 100"
    by (simp add: mod_diff_right_eq [of y 1900 100, symmetric])
  then show ?thesis
    using div_succ [of 100 "y - 1901"] by (simp add: algebra_simps)
qed

lemma step400: "((y::int) + 1 - 1601) div 400 = (y - 1601) div 400 + (if y mod 400 = 0 then 1 else 0)"
proof -
  have "(y - 1601 + 1) mod 400 = y mod 400"
    by (simp add: mod_diff_right_eq [of y 1600 400, symmetric])
  then show ?thesis
    using div_succ [of 400 "y - 1601"] by (simp add: algebra_simps)
qed

lemma mod_chain:
  fixes y :: int
  shows "y mod 400 = 0 \<Longrightarrow> y mod 100 = 0" and "y mod 100 = 0 \<Longrightarrow> y mod 4 = 0"
proof -
  show "y mod 400 = 0 \<Longrightarrow> y mod 100 = 0"
    using mod_mod_cancel [of 100 400 y] by simp
  show "y mod 100 = 0 \<Longrightarrow> y mod 4 = 0"
    using mod_mod_cancel [of 4 100 y] by simp
qed

lemma DayFromYear_step: "DayFromYear (y + 1) = DayFromYear y + DaysInYear y"
  unfolding DayFromYear_def DaysInYear_def step4 step100 step400
  using mod_chain [of y] by auto

lemma DaysInYear_bounds: "365 \<le> DaysInYear y" "DaysInYear y \<le> 366"
  by (simp_all add: DaysInYear_def)

lemma DayFromYear_1970: "DayFromYear 1970 = 0"
  by (simp add: DayFromYear_def)

lemma DayFromYear_mono: "a \<le> b \<Longrightarrow> DayFromYear a \<le> DayFromYear b"
proof (induction b rule: int_ge_induct)
  case base
  show ?case by simp
next
  case (step i)
  then show ?case
    using DaysInYear_bounds(1) [of i] by (simp add: DayFromYear_step)
qed

lemma DayFromYear_upper: "1970 \<le> y \<Longrightarrow> DayFromYear y \<le> 366 * (y - 1970)"
proof (induction y rule: int_ge_induct)
  case base
  show ?case by (simp add: DayFromYear_1970)
next
  case (step i)
  then show ?case
    using DaysInYear_bounds(2) [of i] by (simp add: DayFromYear_step)
qed

lemma DayFromYear_lower: "y \<le> 1970 \<Longrightarrow> DayFromYear y \<le> 365 * (y - 1970)"
proof (induction y rule: int_le_induct)
  case base
  show ?case by (simp add: DayFromYear_1970)
next
  case (step i)
  have "DayFromYear i = DayFromYear (i - 1) + DaysInYear (i - 1)"
    using DayFromYear_step [of "i - 1"] by simp
  then show ?case
    using step DaysInYear_bounds(1) [of "i - 1"] by simp
qed

lemma year_floor_le:
  assumes "DayFromYear y \<le> d" "d < DayFromYear (y + 1)"
  shows "year_floor d \<le> y"
proof (cases "0 \<le> d")
  case True
  have "1970 < y + 1"
  proof (rule ccontr)
    assume "\<not> 1970 < y + 1"
    then have "DayFromYear (y + 1) \<le> DayFromYear 1970"
      by (intro DayFromYear_mono) simp
    then show False using assms(2) True by (simp add: DayFromYear_1970)
  qed
  then have "DayFromYear (y + 1) \<le> 366 * (y + 1 - 1970)"
    by (intro DayFromYear_upper) simp
  then have "d < 366 * (y - 1969)"
    using assms(2) by simp
  then have "d div 366 < y - 1969"
    by (simp add: div_less_iff_less_mult mult.commute)
  then show ?thesis
    using True by (simp add: year_floor_def)
next
  case False
  have "y + 1 \<le> 1970"
  proof (rule ccontr)
    assume "\<not> y + 1 \<le> 1970"
    then have "DayFromYear 1970 \<le> DayFromYear y"
      by (intro DayFromYear_mono) simp
    then show False using assms(1) False by (simp add: DayFromYear_1970)
  qed
  then have "DayFromYear (y + 1) \<le> 365 * (y + 1 - 1970)"
    by (rule DayFromYear_lower)
  then have "d < 365 * (y - 1969)"
    using assms(2) by simp
  then have "d div 365 < y - 1969"
    by (simp add: div_less_iff_less_mult mult.commute)
  then show ?thesis
    using False by (simp add: year_floor_def)
qed

lemma year_up_reaches:
  assumes "DayFromYear y \<le> d" "d < DayFromYear (y + 1)"
  shows "y0 \<le> y \<Longrightarrow> year_up y0 d = y"
proof (induction "nat (y - y0)" arbitrary: y0)
  case 0
  then have "y0 = y" by simp
  then show ?case
    using assms(2) by (subst year_up.simps) simp
next
  case (Suc n)
  then have lt: "y0 + 1 \<le> y" by simp
  then have "DayFromYear (y0 + 1) \<le> d"
    using DayFromYear_mono [of "y0 + 1" y] assms(1) by simp
  moreover have "year_up (y0 + 1) d = y"
    using Suc lt by (intro Suc.hyps) simp_all
  ultimately show ?case
    by (subst year_up.simps) simp
qed

lemma YearFromTime_char:
  assumes "DayFromYear y \<le> Day t" "Day t < DayFromYear (y + 1)"
  shows "YearFromTime t = y"
  unfolding YearFromTime_def
  by (rule year_up_reaches [OF assms year_floor_le [OF assms]])

lemma Day_MakeDate: "0 \<le> tm \<Longrightarrow> tm < msPerDay \<Longrightarrow> Day (MakeDate dy tm) = dy"
  unfolding Day_def MakeDate_def
  by (rule int_div_pos_eq [of _ _ _ tm]) (simp_all add: msPerDay_def)

lemma MakeTime_range:
  assumes "0 \<le> h" "h < 24" "0 \<le> mi" "mi < 60" "0 \<le> s" "s < 60"
  shows "0 \<le> MakeTime h mi s 0" and "MakeTime h mi s 0 < msPerDay"
  using assms
  by (simp_all add: MakeTime_def msPerHour_def msPerMinute_def msPerSecond_def msPerDay_def)

lemma month_cases:
  fixes m :: int
  assumes "1 \<le> m" "m \<le> 12"
  shows "m = 1 \<or> m = 2 \<or> m = 3 \<or> m = 4 \<or> m = 5 \<or> m = 6 \<or> m = 7 \<or> m = 8 \<or> m = 9
         \<or> m = 10 \<or> m = 11 \<or> m = 12"
  using assms by arith

lemma MakeDay_in_year:
  assumes "1 \<le> m" "m \<le> 12" "1 \<le> d" "d \<le> days_in_month y m"
  shows "MakeDay y (m - 1) d = DayFromYear y + month_start (m - 1) (DaysInYear y = 366) + d - 1"
    and "0 \<le> month_start (m - 1) (DaysInYear y = 366) + d - 1"
    and "month_start (m - 1) (DaysInYear y = 366) + d - 1 < DaysInYear y"
proof -
  have dm: "(m - 1) div 12 = 0" "(m - 1) mod 12 = m - 1"
    using assms(1,2) by simp_all
  show "MakeDay y (m - 1) d = DayFromYear y + month_start (m - 1) (DaysInYear y = 366) + d - 1"
    by (simp add: MakeDay_def dm)
  have yr: "DaysInYear y = 365 \<or> DaysInYear y = 366"
    by (simp add: DaysInYear_def)
  show "0 \<le> month_start (m - 1) (DaysInYear y = 366) + d - 1"
    using assms(3) month_cases [OF assms(1,2)] by (auto simp: month_start_def)
  show "month_start (m - 1) (DaysInYear y = 366) + d - 1 < DaysInYear y"
    using assms(3,4) month_cases [OF assms(1,2)] yr
    by (auto simp: month_start_def days_in_month_def)
qed

lemma month_of_offset:
  assumes "1 \<le> m" "m \<le> 12" "1 \<le> d" "d \<le> days_in_month y m"
  shows "(let w = month_start (m - 1) (DaysInYear y = 366) + d - 1;
              l = (if DaysInYear y = 366 then 1 else 0)
          in if w < 31 then 0 else if w < 59 + l then 1 else if w < 90 + l then 2
             else if w < 120 + l then 3 else if w < 151 + l then 4 else if w < 181 + l then 5
             else if w < 212 + l then 6 else if w < 243 + l then 7 else if w < 273 + l then 8
             else if w < 304 + l then 9 else if w < 334 + l then 10 else 11) = m - 1"
proof (cases "DaysInYear y = 366")
  case True
  with month_cases [OF assms(1,2)] assms(3,4) show ?thesis
    by (elim disjE) (simp_all add: month_start_def days_in_month_def Let_def)
next
  case False
  with month_cases [OF assms(1,2)] assms(3,4) show ?thesis
    by (elim disjE) (simp_all add: month_start_def days_in_month_def Let_def)
qed

lemma date_round_trip:
  assumes "1 \<le> m" "m \<le> 12" "1 \<le> d" "d \<le> days_in_month y m" "0 \<le> tm" "tm < msPerDay"
  shows "YearFromTime (MakeDate (MakeDay y (m - 1) d) tm) = y"
    and "MonthFromTime (MakeDate (MakeDay y (m - 1) d) tm) = m - 1"
    and "DateFromTime (MakeDate (MakeDay y (m - 1) d) tm) = d"
proof -
  let ?t = "MakeDate (MakeDay y (m - 1) d) tm"
  let ?w = "month_start (m - 1) (DaysInYear y = 366) + d - 1"
  note md = MakeDay_in_year [OF assms(1-4)]
  have dy: "Day ?t = DayFromYear y + ?w"
    using Day_MakeDate [OF assms(5,6)] md(1) by simp
  show yr: "YearFromTime ?t = y"
    by (rule YearFromTime_char) (use dy md(2,3) in \<open>simp_all add: DayFromYear_step\<close>)
  have within: "DayWithinYear ?t = ?w"
    by (simp add: DayWithinYear_def yr dy)
  have leap: "InLeapYear ?t = (DaysInYear y = 366)"
    by (simp add: InLeapYear_def yr)
  show mo: "MonthFromTime ?t = m - 1"
    unfolding MonthFromTime_def within leap
    by (rule month_of_offset [OF assms(1-4)])
  show "DateFromTime ?t = d"
    by (simp add: DateFromTime_def mo within leap)
qed

lemma time_round_trip:
  assumes "0 \<le> h" "h < 24" "0 \<le> mi" "mi < 60" "0 \<le> s" "s < 60"
  shows "HourFromTime (MakeDate dy (MakeTime h mi s 0)) = h"
    and "MinFromTime (MakeDate dy (MakeTime h mi s 0)) = mi"
    and "SecFromTime (MakeDate dy (MakeTime h mi s 0)) = s"
proof -
  let ?t = "MakeDate dy (MakeTime h mi s 0)"
  have "?t div msPerHour = 24 * dy + h"
    by (rule int_div_pos_eq [of _ _ _ "mi * 60000 + s * 1000"])
       (use assms in \<open>simp_all add: MakeDate_def MakeTime_def msPerDay_def msPerHour_def
          msPerMinute_def msPerSecond_def\<close>)
  moreover have "(24 * dy + h) mod 24 = h"
    by (rule int_mod_pos_eq [of _ _ dy]) (use assms in simp_all)
  ultimately show "HourFromTime ?t = h"
    by (simp only: HourFromTime_def)
  have "?t div msPerMinute = 60 * (24 * dy + h) + mi"
    by (rule int_div_pos_eq [of _ _ _ "s * 1000"])
       (use assms in \<open>simp_all add: MakeDate_def MakeTime_def msPerDay_def msPerHour_def
          msPerMinute_def msPerSecond_def\<close>)
  moreover have "(60 * (24 * dy + h) + mi) mod 60 = mi"
    by (rule int_mod_pos_eq [of _ _ "24 * dy + h"]) (use assms in simp_all)
  ultimately show "MinFromTime ?t = mi"
    by (simp only: MinFromTime_def)
  have "?t div msPerSecond = 60 * (60 * (24 * dy + h) + mi) + s"
    by (rule int_div_pos_eq [of _ _ _ 0])
       (use assms in \<open>simp_all add: MakeDate_def MakeTime_def msPerDay_def msPerHour_def
          msPerMinute_def msPerSecond_def\<close>)
  moreover have "(60 * (60 * (24 * dy + h) + mi) + s) mod 60 = s"
    by (rule int_mod_pos_eq [of _ _ "60 * (24 * dy + h) + mi"]) (use assms in simp_all)
  ultimately show "SecFromTime ?t = s"
    by (simp only: SecFromTime_def)
qed

lemma digit_facts:
  assumes "is_digit c"
  shows "digit_val c < 10" and "digit_char (digit_val c) = c" and "c \<noteq> CHR ''_''"
  using assms by (auto simp: is_digit_def digit_val_def digit_char_def)

lemma digit_zero: "is_digit c \<Longrightarrow> digit_val c = 0 \<Longrightarrow> c = CHR ''0''"
  by (auto simp: is_digit_def digit_val_def)

lemma digit_char_add: "digit_char (10 * q + r) = digit_char r"
  by (simp add: digit_char_def)

lemma to_nat_2: "to_nat_digits [a, b] = 10 * digit_val a + digit_val b"
  by (simp add: to_nat_digits_def)

lemma to_nat_4:
  "to_nat_digits [a, b, c, d] = 1000 * digit_val a + 100 * digit_val b + 10 * digit_val c + digit_val d"
  by (simp add: to_nat_digits_def)

declare show_nat.simps [simp del]

lemma show_int_nat: "show_int (int n) = show_nat n"
  by (simp add: show_int_def)

lemma show_nat_small: "n < 10 \<Longrightarrow> show_nat n = [digit_char n]"
  by (subst show_nat.simps) simp

lemma show_nat_snoc: "0 < q \<Longrightarrow> r < 10 \<Longrightarrow> show_nat (10 * q + r) = show_nat q @ [digit_char r]"
  by (subst show_nat.simps) (simp add: digit_char_add)

lemma show_nat_two:
  assumes "is_digit a" "is_digit b"
  shows "show_nat (to_nat_digits [a, b]) = (if digit_val a = 0 then [b] else [a, b])"
proof (cases "digit_val a = 0")
  case True
  then show ?thesis
    using digit_facts [OF assms(2)] by (simp add: to_nat_2 show_nat_small)
next
  case False
  have "show_nat (10 * digit_val a + digit_val b) = show_nat (digit_val a) @ [digit_char (digit_val b)]"
    by (rule show_nat_snoc) (use False digit_facts(1) [OF assms(2)] in simp_all)
  then show ?thesis
    using False digit_facts [OF assms(1)] digit_facts [OF assms(2)]
    by (simp add: to_nat_2 show_nat_small)
qed

lemma show_two_digits:
  assumes "is_digit a" "is_digit b"
  shows "pad2 (int (to_nat_digits [a, b])) = [a, b]"
proof -
  have "pad2 (int (to_nat_digits [a, b])) = padStart (show_nat (to_nat_digits [a, b])) 2 (CHR ''0'')"
    by (simp only: pad2_def show_int_nat)
  also have "\<dots> = [a, b]"
    using digit_zero [OF assms(1)]
    by (simp add: show_nat_two [OF assms] padStart_def)
  finally show ?thesis .
qed

lemma show_four_digits:
  assumes "is_digit a" "is_digit b" "is_digit c" "is_digit d"
    and "100 \<le> to_nat_digits [a, b, c, d]"
  shows "padStart (show_int (int (to_nat_digits [a, b, c, d]))) 4 (CHR ''0'') = [a, b, c, d]"
proof -
  note dc = digit_facts [OF assms(3)] and dd = digit_facts [OF assms(4)]
  define hi where "hi = to_nat_digits [a, b]"
  have n: "to_nat_digits [a, b, c, d] = 10 * (10 * hi + digit_val c) + digit_val d"
    by (simp add: to_nat_4 to_nat_2 hi_def)
  have pos: "0 < hi"
    using assms(5) dc(1) dd(1) unfolding n by arith
  have "show_nat (10 * (10 * hi + digit_val c) + digit_val d)
          = show_nat (10 * hi + digit_val c) @ [digit_char (digit_val d)]"
    by (rule show_nat_snoc) (use pos dd(1) in simp_all)
  moreover have "show_nat (10 * hi + digit_val c) = show_nat hi @ [digit_char (digit_val c)]"
    by (rule show_nat_snoc) (use pos dc(1) in simp_all)
  ultimately have s3: "show_nat (to_nat_digits [a, b, c, d]) = show_nat hi @ [c, d]"
    by (simp only: n dc(2) dd(2) append_assoc append_Cons append_Nil)
  have "padStart (show_int (int (to_nat_digits [a, b, c, d]))) 4 (CHR ''0'')
          = padStart (show_nat hi @ [c, d]) 4 (CHR ''0'')"
    by (simp only: show_int_nat s3)
  also have "\<dots> = [a, b, c, d]"
    using digit_zero [OF assms(1)]
    by (simp add: hi_def show_nat_two [OF assms(1,2)] padStart_def)
  finally show ?thesis .
qed

lemma parse_timestamp:
  assumes "is_digit y1" "is_digit y2" "is_digit y3" "is_digit y4" "is_digit m1" "is_digit m2"
    "is_digit d1" "is_digit d2" "is_digit h1" "is_digit h2" "is_digit n1" "is_digit n2"
    "is_digit s1" "is_digit s2"
  shows "run_parser timestamp_tokens 0
           [y1, y2, y3, y4, m1, m2, d1, d2, CHR ''_'', h1, h2, n1, n2, s1, s2] no_time =
         Some \<lparr>year = Some (to_nat_digits [y1, y2, y3, y4]), month = Some (to_nat_digits [m1, m2]),
               day = Some (to_nat_digits [d1, d2]), hours = Some (to_nat_digits [h1, h2]),
               minutes = Some (to_nat_digits [n1, n2]), seconds = Some (to_nat_digits [s1, s2])\<rparr>"
  using assms digit_facts(3) [OF assms(9)] digit_facts(3) [OF assms(11)] digit_facts(3) [OF assms(13)]
  by (simp add: timestamp_tokens_def no_time_def)

lemma date_arguments_parsed:
  assumes "100 \<le> Y" "1 \<le> M" "1 \<le> D"
  shows "date_arguments now \<lparr>year = Some Y, month = Some M, day = Some D, hours = Some H,
            minutes = Some N, seconds = Some S\<rparr>
         = (int Y, int M - 1, int D, int H, int N, int S)"
  using assms by (simp add: date_arguments_def or_else_def is_set_def Let_def)

text \<open>
  C7, as it is stated, for every string of the format: a year below 100 comes back as a
  year of the twentieth century (\<open>0050\<close> as \<open>1950\<close>), a day that the month does not have
  is carried into the next month (the 30th of February 2024 as the 1st of March), and a
  local time that the zone skipped is moved on (02:30 on the day the clock went from 02:00
  to 03:00 as 03:30).
\<close>

theorem formatDate_changes_fields:
  "formatDate \<lparr>now_year = 2026, now_month = 10, now_date = 2\<rparr> Some ''00500101_000000''
     = ''1950-01-01 00:00:00''
   \<and> formatDate \<lparr>now_year = 2026, now_month = 10, now_date = 2\<rparr> Some ''20240230_120000''
     = ''2024-03-01 12:00:00''
   \<and> formatDate \<lparr>now_year = 2026, now_month = 10, now_date = 2\<rparr>
        (skipped_hour (MakeDate (MakeDay 2024 2 10) (MakeTime 2 0 0 0))) ''20240310_023000''
     = ''2024-03-10 03:30:00''"
  by code_simp

text \<open>
  C7, amended: for a timestamp \<open>YYYYMMDD_HHmmss\<close> of fourteen digits that names a date and
  time of the calendar (a month from 01 to 12, a day of that month, an hour below 24,
  minutes and seconds below 60) with a year from 0100 on, and whose local time exists in
  the zone of the machine that shows it, \<open>formatDate\<close> returns \<open>YYYY-MM-DD HH:mm:ss\<close>
  with the same digits, field by field.
\<close>

theorem formatDate_preserves_fields:
  assumes digits: "list_all is_digit [y1, y2, y3, y4, m1, m2, d1, d2, h1, h2, n1, n2, s1, s2]"
    and year: "100 \<le> to_nat_digits [y1, y2, y3, y4]"
    and month: "1 \<le> to_nat_digits [m1, m2] \<and> to_nat_digits [m1, m2] \<le> 12"
    and day: "1 \<le> to_nat_digits [d1, d2]
              \<and> int (to_nat_digits [d1, d2])
                  \<le> days_in_month (int (to_nat_digits [y1, y2, y3, y4])) (int (to_nat_digits [m1, m2]))"
    and time_of_day: "to_nat_digits [h1, h2] < 24 \<and> to_nat_digits [n1, n2] < 60 \<and> to_nat_digits [s1, s2] < 60"
    and zone: "zone (MakeDate (MakeDay (int (to_nat_digits [y1, y2, y3, y4]))
                                 (int (to_nat_digits [m1, m2]) - 1) (int (to_nat_digits [d1, d2])))
                       (MakeTime (int (to_nat_digits [h1, h2])) (int (to_nat_digits [n1, n2]))
                                 (int (to_nat_digits [s1, s2])) 0))
               = Some (MakeDate (MakeDay (int (to_nat_digits [y1, y2, y3, y4]))
                                 (int (to_nat_digits [m1, m2]) - 1) (int (to_nat_digits [d1, d2])))
                       (MakeTime (int (to_nat_digits [h1, h2])) (int (to_nat_digits [n1, n2]))
                                 (int (to_nat_digits [s1, s2])) 0))"
  shows "formatDate now zone [y1, y2, y3, y4, m1, m2, d1, d2, CHR ''_'', h1, h2, n1, n2, s1, s2]
         = [y1, y2, y3, y4, CHR ''-'', m1, m2, CHR ''-'', d1, d2, CHR '' '',
            h1, h2, CHR '':'', n1, n2, CHR '':'', s1, s2]"
proof -
  define Y where "Y = to_nat_digits [y1, y2, y3, y4]"
  define M where "M = to_nat_digits [m1, m2]"
  define D where "D = to_nat_digits [d1, d2]"
  define H where "H = to_nat_digits [h1, h2]"
  define N where "N = to_nat_digits [n1, n2]"
  define S where "S = to_nat_digits [s1, s2]"
  define tm where "tm = MakeTime (int H) (int N) (int S) 0"
  define t where "t = MakeDate (MakeDay (int Y) (int M - 1) (int D)) tm"
  have dg: "is_digit y1" "is_digit y2" "is_digit y3" "is_digit y4" "is_digit m1" "is_digit m2"
    "is_digit d1" "is_digit d2" "is_digit h1" "is_digit h2" "is_digit n1" "is_digit n2"
    "is_digit s1" "is_digit s2"
    using digits by simp_all
  have parsed: "run_parser timestamp_tokens 0
      [y1, y2, y3, y4, m1, m2, d1, d2, CHR ''_'', h1, h2, n1, n2, s1, s2] no_time
      = Some \<lparr>year = Some Y, month = Some M, day = Some D, hours = Some H,
               minutes = Some N, seconds = Some S\<rparr>"
    unfolding Y_def M_def D_def H_def N_def S_def by (rule parse_timestamp [OF dg])
  have args: "date_arguments now \<lparr>year = Some Y, month = Some M, day = Some D, hours = Some H,
               minutes = Some N, seconds = Some S\<rparr>
             = (int Y, int M - 1, int D, int H, int N, int S)"
    by (rule date_arguments_parsed) (use year month day in \<open>simp_all add: Y_def M_def D_def\<close>)
  have made: "parseFormattedInput now zone
      [y1, y2, y3, y4, m1, m2, d1, d2, CHR ''_'', h1, h2, n1, n2, s1, s2] = Some t"
  proof -
    have "zone t = Some t"
      unfolding t_def tm_def Y_def M_def D_def H_def N_def S_def by (rule zone)
    moreover have "100 \<le> Y"
      unfolding Y_def by (rule year)
    ultimately show ?thesis
      by (simp add: parseFormattedInput_def parsed args t_def [symmetric] tm_def [symmetric])
  qed
  have tm: "0 \<le> tm" "tm < msPerDay"
    unfolding tm_def by (rule MakeTime_range; use time_of_day in \<open>simp add: H_def N_def S_def\<close>)+
  have valid: "1 \<le> int M" "int M \<le> 12" "1 \<le> int D" "int D \<le> days_in_month (int Y) (int M)"
    using month day by (simp_all add: Y_def M_def D_def)
  have hms: "0 \<le> int H" "int H < 24" "0 \<le> int N" "int N < 60" "0 \<le> int S" "int S < 60"
    using time_of_day by (simp_all add: H_def N_def S_def)
  have fields: "YearFromTime t = int Y" "MonthFromTime t + 1 = int M" "DateFromTime t = int D"
    "HourFromTime t = int H" "MinFromTime t = int N" "SecFromTime t = int S"
    unfolding t_def
    using date_round_trip [OF valid tm] time_round_trip [OF hms] by (simp_all add: tm_def)
  have shown: "padStart (show_int (int Y)) 4 (CHR ''0'') = [y1, y2, y3, y4]"
    "pad2 (int M) = [m1, m2]" "pad2 (int D) = [d1, d2]" "pad2 (int H) = [h1, h2]"
    "pad2 (int N) = [n1, n2]" "pad2 (int S) = [s1, s2]"
    unfolding Y_def M_def D_def H_def N_def S_def
    using year by (simp_all only: show_four_digits [OF dg(1-4)] show_two_digits dg)
  show ?thesis
    by (simp add: formatDate_def made dayjs_format_def fields shown)
qed

theorem formatDate_preserves_fields_witness:
  "formatDate \<lparr>now_year = 2026, now_month = 10, now_date = 2\<rparr> Some ''20240229_183057''
     = ''2024-02-29 18:30:57''"
proof -
  have digits: "list_all is_digit ''20240229183057''"
    by (simp add: is_digit_def)
  have year: "100 \<le> to_nat_digits ''2024''"
    by (simp add: to_nat_digits_def digit_val_def)
  have month: "1 \<le> to_nat_digits ''02'' \<and> to_nat_digits ''02'' \<le> 12"
    by (simp add: to_nat_digits_def digit_val_def)
  have day: "1 \<le> to_nat_digits ''29''
      \<and> int (to_nat_digits ''29'') \<le> days_in_month (int (to_nat_digits ''2024'')) (int (to_nat_digits ''02''))"
    by (simp add: to_nat_digits_def digit_val_def days_in_month_def DaysInYear_def)
  have time_of_day: "to_nat_digits ''18'' < 24 \<and> to_nat_digits ''30'' < 60 \<and> to_nat_digits ''57'' < 60"
    by (simp add: to_nat_digits_def digit_val_def)
  show ?thesis
    using formatDate_preserves_fields [where zone = Some, OF digits year month day time_of_day refl]
    by simp
qed

subsection \<open>The store's defaults\<close>

text \<open>
  C8: the store starts with \<open>max_generations = 10\<close>, \<open>theme = 'system'\<close> and an empty
  \<open>repo_save_path\<close>, and the settings view set up on it shows the same; when the stored
  \<open>max_generations\<close> or \<open>theme\<close> is absent, the view's watchers put 10 and \<open>system\<close>
  in their place.
\<close>

theorem startup_defaults:
  "settings initial_store =
     \<lparr>repo_save_path = JStr [], theme = JStr ''system'', max_generations = JNum 10\<rparr>
   \<and> localPath (setup_view initial_store) = JStr []
   \<and> maxGenerations (setup_view initial_store) = JNum 10
   \<and> theme_ref (setup_view initial_store) = JStr ''system''
   \<and> maxGenerations (watch_max_generations JUndefined v) = JNum 10
   \<and> theme_ref (watch_theme JUndefined v) = JStr ''system''
   \<and> maxGenerations (setup_view (st\<lparr>settings := (settings st)\<lparr>max_generations := JUndefined\<rparr>\<rparr>)) = JNum 10
   \<and> theme_ref (setup_view (st\<lparr>settings := (settings st)\<lparr>theme := JUndefined\<rparr>\<rparr>)) = JStr ''system''"
  by (simp add: initial_store_def setup_view_def watch_max_generations_def watch_theme_def
        watch_repo_save_path_def declared_view_def js_or_def)

subsection \<open>Falsy arguments of saveSettings\<close>

text \<open>
  C9: \<open>saveSettings\<close> called with a falsy \<open>maxGenerations\<close> sends the store's current
  \<open>max_generations\<close>, or 10 when that is falsy too; called with a falsy \<open>theme\<close> it sends
  the store's current theme, or \<open>system\<close> when that is falsy too.  What it sends is
  always truthy: never 0.
\<close>

theorem saveSettings_falsy_defaults:
  "\<exists>m t. saveSettings st p mg th = Save_settings p m t
     \<and> (\<not> truthy mg \<longrightarrow>
          m = (if truthy (max_generations (settings st)) then max_generations (settings st) else JNum 10))
     \<and> (\<not> truthy th \<longrightarrow>
          t = (if truthy (theme (settings st)) then theme (settings st) else JStr ''system''))
     \<and> (truthy mg \<longrightarrow> m = mg) \<and> (truthy th \<longrightarrow> t = th)
     \<and> truthy m \<and> truthy t \<and> m \<noteq> JNum 0"
  by (auto simp: saveSettings_def js_or_def)

theorem saveSettings_falsy_defaults_witness:
  "\<not> truthy (JNum 0) \<and> \<not> truthy JNull \<and> \<not> truthy JUndefined \<and> \<not> truthy (JStr [])
   \<and> saveSettings initial_store (JStr ''C:/saves'') (JNum 0) (JStr []) =
       Save_settings (JStr ''C:/saves'') (JNum 10) (JStr ''system'')
   \<and> saveSettings (initial_store\<lparr>settings := \<lparr>repo_save_path = JStr [], theme = JNull, max_generations = JNum 0\<rparr>\<rparr>)
        (JStr ''C:/saves'') JUndefined JNull =
       Save_settings (JStr ''C:/saves'') (JNum 10) (JStr ''system'')
   \<and> saveSettings (initial_store\<lparr>settings := \<lparr>repo_save_path = JStr [], theme = JStr ''dark'', max_generations = JNum 7\<rparr>\<rparr>)
        (JStr ''C:/saves'') JNull JUndefined =
       Save_settings (JStr ''C:/saves'') (JNum 7) (JStr ''dark'')"
  using saveSettings_falsy_defaults [of initial_store "JStr ''C:/saves''" "JNum 0" "JStr []"]
  by (simp add: saveSettings_def js_or_def initial_store_def)

subsection \<open>One debounce timer for the memos of all folders\<close>

lemma one_memo_timer_initial: "one_memo_timer initial_list"
  by (simp add: one_memo_timer_def initial_list_def no_timers_def)

lemma clear_own_timer:
  "pending (clear_if_set (memoTimer sl) (list_timers sl)) = []" if "one_memo_timer sl"
proof (cases "memoTimer sl")
  case None
  then have "\<forall>e \<in> set (pending (list_timers sl)). False"
    using that by (simp add: one_memo_timer_def list_all_iff)
  then have "pending (list_timers sl) = []"
    by (cases "pending (list_timers sl)") auto
  then show ?thesis
    by (simp add: None clear_if_set_def)
next
  case (Some h)
  then show ?thesis
    using that
    by (auto simp: one_memo_timer_def clear_if_set_def clearTimeout_def list_all_iff filter_empty_conv)
qed

lemma onMemoInput_pending:
  assumes "one_memo_timer sl"
  shows "pending (list_timers (onMemoInput f sl)) = [(next_handle (list_timers sl), clock sl + 1000, f)]
         \<and> memoTimer (onMemoInput f sl) = Some (next_handle (list_timers sl))
         \<and> sent (onMemoInput f sl) = sent sl \<and> clock (onMemoInput f sl) = clock sl
         \<and> memos (onMemoInput f sl) = memos sl"
proof -
  have "next_handle (clear_if_set (memoTimer sl) (list_timers sl)) = next_handle (list_timers sl)"
    by (simp add: clear_if_set_def clearTimeout_def split: option.splits)
  then show ?thesis
    using clear_own_timer [OF assms]
    by (simp add: onMemoInput_def setTimeout_def Let_def)
qed

lemma one_memo_timer_memos [simp]:
  "one_memo_timer (sl\<lparr>memos := m\<rparr>) = one_memo_timer sl"
  by (simp add: one_memo_timer_def)

lemma watch_items_frame:
  "list_timers (watch_items fo its sl) = list_timers sl \<and> memoTimer (watch_items fo its sl) = memoTimer sl
   \<and> sent (watch_items fo its sl) = sent sl \<and> clock (watch_items fo its sl) = clock sl"
  unfolding watch_items_def
  by (induction its arbitrary: sl) (simp_all add: watch_item_def)

lemma fold_memo_callback_frame:
  "list_timers (fold memo_callback cs sl) = list_timers sl
   \<and> memoTimer (fold memo_callback cs sl) = memoTimer sl
   \<and> clock (fold memo_callback cs sl) = clock sl
   \<and> memos (fold memo_callback cs sl) = memos sl"
  by (induction cs arbitrary: sl) (simp_all add: memo_callback_def)

lemma one_memo_timer_step:
  assumes "one_memo_timer sl"
  shows "one_memo_timer (list_step e sl)"
proof (cases e)
  case (Memo_typed f t)
  have "one_memo_timer (sl\<lparr>memos := set_property f t (memos sl)\<rparr>)"
    using assms by simp
  from onMemoInput_pending [OF this, of f] show ?thesis
    by (simp add: Memo_typed one_memo_timer_def)
next
  case (Items_changed fo its)
  then show ?thesis
    using assms watch_items_frame [of fo its sl] by (simp add: one_memo_timer_def)
next
  case (Time_passes d)
  then show ?thesis
    using assms
    by (simp add: one_memo_timer_def Let_def fold_memo_callback_frame drop_due_def list_all_iff)
qed

lemma one_memo_timer_run:
  "one_memo_timer sl \<Longrightarrow> one_memo_timer (list_run es sl)"
  unfolding list_run_def
  by (induction es arbitrary: sl) (simp_all add: one_memo_timer_step)

lemma type_then_wait:
  assumes "one_memo_timer sl"
  shows "(gap < 1000 \<longrightarrow>
            sent (list_step (Time_passes gap) (list_step (Memo_typed f t) sl)) = sent sl)
         \<and> (1000 \<le> gap \<longrightarrow>
            sent (list_step (Time_passes gap) (list_step (Memo_typed f t) sl))
              = sent sl @ [Save_memo f (get_property (set_property f t (memos sl)) f)]
            \<and> pending (list_timers (list_step (Time_passes gap) (list_step (Memo_typed f t) sl))) = [])"
proof -
  have wf: "one_memo_timer (sl\<lparr>memos := set_property f t (memos sl)\<rparr>)"
    using assms by simp
  from onMemoInput_pending [OF wf, of f] show ?thesis
    by (simp add: Let_def due_callbacks_def drop_due_def memo_callback_def saveMemo_def)
qed

lemma get_set_property:
  "k \<noteq> ''__proto__'' \<Longrightarrow> get_property (set_property k v obj) k = Primitive v"
  by (simp add: get_property_def set_property_def)

lemma burst_silent:
  "one_memo_timer sl \<Longrightarrow> short_gaps es \<Longrightarrow>
     sent (list_run (burst es) sl) = sent sl \<and> one_memo_timer (list_run (burst es) sl)"
proof (induction es arbitrary: sl)
  case Nil
  then show ?case by (simp add: list_run_def)
next
  case (Cons e es)
  obtain f t gap where e: "e = (f, t, gap)" by (cases e) auto
  let ?s = "list_step (Time_passes gap) (list_step (Memo_typed f t) sl)"
  have gap: "gap < 1000" and rest: "short_gaps es"
    using Cons.prems(2) by (simp_all add: short_gaps_def e)
  have wf: "one_memo_timer ?s"
    by (intro one_memo_timer_step Cons.prems(1))
  have quiet: "sent ?s = sent sl"
    using type_then_wait [OF Cons.prems(1), of gap f t] gap by simp
  have run: "list_run (burst (e # es)) sl = list_run (burst es) ?s"
    by (simp add: e list_run_def)
  show ?case
    using Cons.IH [OF wf rest] quiet by (simp add: run)
qed

lemma list_run_append: "list_run (es @ es') sl = list_run es' (list_run es sl)"
  by (simp add: list_run_def)

text \<open>
  The timer, for every folder name: at any point of the view's life, typing in a memo
  field leaves exactly one pending timer, whichever folder the field belongs to.  A save
  is sent only once 1000 ms have passed with no memo input at all: sooner nothing is sent,
  and after a burst of edits in any folders, each within a second of the one before, one
  save is sent, for the folder edited last.  It carries what \<open>memos\<close> then holds for that
  folder, which is the text typed when the folder is not named \<open>__proto__\<close>.
\<close>

lemma shared_memo_timer:
  "let sl = list_run history initial_list
   in (\<exists>h. pending (list_timers (list_step (Memo_typed f t) sl)) = [(h, clock sl + 1000, f)])
      \<and> (gap < 1000 \<longrightarrow> sent (list_run [Memo_typed f t, Time_passes gap] sl) = sent sl)
      \<and> (short_gaps es \<and> 1000 \<le> d \<longrightarrow>
            sent (list_run (burst es @ [Memo_typed f t, Time_passes d]) sl)
              = sent sl @ [Save_memo f (get_property
                                          (set_property f t (memos (list_run (burst es) sl))) f)])
      \<and> (short_gaps es \<and> 1000 \<le> d \<and> f \<noteq> ''__proto__'' \<longrightarrow>
            sent (list_run (burst es @ [Memo_typed f t, Time_passes d]) sl)
              = sent sl @ [Save_memo f (Primitive t)])"
proof -
  define sl where "sl = list_run history initial_list"
  have wf: "one_memo_timer sl"
    unfolding sl_def by (rule one_memo_timer_run [OF one_memo_timer_initial])
  have one: "\<exists>h. pending (list_timers (list_step (Memo_typed f t) sl)) = [(h, clock sl + 1000, f)]"
    using onMemoInput_pending [of "sl\<lparr>memos := set_property f t (memos sl)\<rparr>" f] wf by simp
  have single: "gap < 1000 \<longrightarrow> sent (list_run [Memo_typed f t, Time_passes gap] sl) = sent sl"
    using type_then_wait [OF wf, of gap f t] by (simp add: list_run_def)
  have many: "sent (list_run (burst es @ [Memo_typed f t, Time_passes d]) sl)
      = sent sl @ [Save_memo f (get_property (set_property f t (memos (list_run (burst es) sl))) f)]"
    if "short_gaps es" "1000 \<le> d"
  proof -
    from burst_silent [OF wf that(1)]
    have q: "sent (list_run (burst es) sl) = sent sl" and w: "one_memo_timer (list_run (burst es) sl)"
      by simp_all
    show ?thesis
      using type_then_wait [OF w, of d f t] that(2) q
      by (simp add: list_run_append) (simp add: list_run_def)
  qed
  show ?thesis
    using one single many by (simp add: Let_def sl_def [symmetric] get_set_property)
qed

lemma list_run_Nil: "list_run [] sl = sl"
  by (simp add: list_run_def)

lemma sent_initial_list: "sent initial_list = []"
  by (simp add: initial_list_def)

lemma memos_onMemoInput: "memos (onMemoInput f sl) = memos sl"
  by (simp add: onMemoInput_def Let_def split: prod.splits)

lemma memos_Time_passes: "memos (list_step (Time_passes d) sl) = memos sl"
  by (simp add: Let_def fold_memo_callback_frame)

lemma shared_memo_timer_example:
  "sent (list_run [Memo_typed ''SaveA'' (JStr ''boss''), Time_passes 150,
                   Memo_typed ''SaveB'' (JStr ''shop''), Time_passes 1000] initial_list)
     = [Save_memo ''SaveB'' (Primitive (JStr ''shop''))]"
  using shared_memo_timer [where history = "[]" and gap = 0 and d = 1000 and f = "''SaveB''"
      and t = "JStr ''shop''" and es = "[(''SaveA'', JStr ''boss'', 150)]"]
  by (simp add: Let_def short_gaps_def list_run_Nil sent_initial_list get_set_property)

text \<open>
  C10, at a folder named \<open>__proto__\<close>.  The view keeps one timer for all folders and the
  save of the folder edited last is the only one sent, as the lemma above says of every
  folder name.  But \<open>memos\<close> is a plain object: neither the memo the store has for a
  folder named \<open>__proto__\<close> nor the text typed in its memo field is stored in it, and the
  save sent after the second carries \<open>Object.prototype\<close> in place of the memo.  The memo
  edited last is not persisted.
\<close>

theorem memo_of_proto_folder_not_saved:
  "sent (list_run
           [Items_changed False
              [\<lparr>name = ''SaveA'', memo = JStr ''first'',
                backups = [\<lparr>timestamp = ''20240101_000000'', is_auto = JBool True\<rparr>],
                source_exists = JBool True\<rparr>,
               \<lparr>name = ''__proto__'', memo = JStr [],
                backups = [\<lparr>timestamp = ''20240101_000000'', is_auto = JBool True\<rparr>],
                source_exists = JBool True\<rparr>],
            Memo_typed ''SaveA'' (JStr ''boss''), Time_passes 150,
            Memo_typed ''__proto__'' (JStr ''shop''), Time_passes 1000] initial_list)
     = [Save_memo ''__proto__'' Object_prototype]"
proof -
  define loaded where "loaded = list_run
     [Items_changed False
        [\<lparr>name = ''SaveA'', memo = JStr ''first'',
          backups = [\<lparr>timestamp = ''20240101_000000'', is_auto = JBool True\<rparr>],
          source_exists = JBool True\<rparr>,
         \<lparr>name = ''__proto__'', memo = JStr [],
          backups = [\<lparr>timestamp = ''20240101_000000'', is_auto = JBool True\<rparr>],
          source_exists = JBool True\<rparr>]] initial_list"
  have loaded_memos: "memos loaded = set_property ''SaveA'' (JStr ''first'') empty_object"
    by (simp add: loaded_def list_run_def watch_items_def watch_item_def initial_list_def
          get_property_def set_property_def empty_object_def property_strict_neq_def
          object_prototype_methods_def)
  have loaded_sent: "sent loaded = []"
    using watch_items_frame by (simp add: loaded_def list_run_def sent_initial_list)
  have before: "memos (list_run (burst [(''SaveA'', JStr ''boss'', 150)]) loaded)
                  = set_property ''SaveA'' (JStr ''boss'') (memos loaded)"
    by (simp add: list_run_def memos_Time_passes memos_onMemoInput del: list_step.simps(3))
  have typed: "get_property (set_property ''__proto__'' (JStr ''shop'')
                  (set_property ''SaveA'' (JStr ''boss'')
                     (set_property ''SaveA'' (JStr ''first'') empty_object))) ''__proto__''
               = Object_prototype"
    by (simp add: get_property_def set_property_def empty_object_def)
  have "sent (list_run (burst [(''SaveA'', JStr ''boss'', 150)]
                          @ [Memo_typed ''__proto__'' (JStr ''shop''), Time_passes 1000]) loaded)
        = [Save_memo ''__proto__'' Object_prototype]"
    using shared_memo_timer [where gap = 0 and d = 1000 and f = "''__proto__''"
        and t = "JStr ''shop''" and es = "[(''SaveA'', JStr ''boss'', 150)]"
        and history = "[Items_changed False
        [\<lparr>name = ''SaveA'', memo = JStr ''first'',
          backups = [\<lparr>timestamp = ''20240101_000000'', is_auto = JBool True\<rparr>],
          source_exists = JBool True\<rparr>,
         \<lparr>name = ''__proto__'', memo = JStr [],
          backups = [\<lparr>timestamp = ''20240101_000000'', is_auto = JBool True\<rparr>],
          source_exists = JBool True\<rparr>]]"]
    by (simp add: Let_def short_gaps_def loaded_def [symmetric] loaded_sent before loaded_memos typed
          del: burst.simps)
  then show ?thesis
    by (simp add: loaded_def list_run_def)
qed

end
